theory Spec2Isabelle
  imports Main
begin

section \<open>Python dictionaries\<close>

text \<open>
  A dictionary is an association list with distinct keys in insertion order:
  \<^verbatim>\<open>d[k] = v\<close> replaces the value of a present key in place and appends an absent one,
  \<^verbatim>\<open>{**a, **b}\<close> stores the items of \<open>b\<close> into a copy of \<open>a\<close>, \<^verbatim>\<open>k in d\<close> tests the keys
  and \<^verbatim>\<open>d.get(k)\<close> is \<^const>\<open>map_of\<close>.
\<close>

definition has_key :: "'k \<Rightarrow> ('k \<times> 'v) list \<Rightarrow> bool" where
  "has_key k d = (k \<in> set (map fst d))"

definition dict_set :: "'k \<Rightarrow> 'v \<Rightarrow> ('k \<times> 'v) list \<Rightarrow> ('k \<times> 'v) list" where
  "dict_set k v d =
     (if has_key k d then map (\<lambda>(k', v'). if k' = k then (k', v) else (k', v')) d
      else d @ [(k, v)])"

definition dict_del :: "'k \<Rightarrow> ('k \<times> 'v) list \<Rightarrow> ('k \<times> 'v) list" where
  "dict_del k d = filter (\<lambda>(k', v'). k' \<noteq> k) d"

definition dict_update :: "('k \<times> 'v) list \<Rightarrow> ('k \<times> 'v) list \<Rightarrow> ('k \<times> 'v) list" where
  "dict_update a b = foldl (\<lambda>d (k, v). dict_set k v d) a b"

section \<open>Status store: the documents table of db/db\_handler.py\<close>

text \<open>
  The table \<^verbatim>\<open>documents\<close> is a list of rows in insertion order, together with
  the counter that SQLite keeps for an AUTOINCREMENT key. Timestamps are abstract
  (a natural number read from the clock by the caller of the model). Every method of
  \<^verbatim>\<open>DocumentDBHandler\<close> wraps its statement in \<^verbatim>\<open>try ... except sqlite3.Error\<close>;
  whether the engine executes the statement or raises is an input of the model.
\<close>

type_synonym timestamp = nat

record document =
  row_id :: nat
  filename :: string
  filepath :: string
  status :: string
  trace_id :: "string option"
  error_message :: "string option"
  processed_date :: "timestamp option"
  created_date :: timestamp

record documents_table =
  rows :: "document list"
  sqlite_sequence :: nat

datatype sqlite_outcome = Executed | Sqlite_error

definition create_tables :: documents_table where
  "create_tables = \<lparr>rows = [], sqlite_sequence = 0\<rparr>"

text \<open>
  \<^verbatim>\<open>INSERT OR IGNORE\<close>: the only UNIQUE column is \<^verbatim>\<open>filename\<close>, so the row is
  skipped exactly when a row with that filename exists. The key of the new row is one
  more than the largest key ever used (the counter or the largest key in the table,
  whichever is greater). SQLite allocates the key before it checks the constraint, so
  the counter advances also when the row is skipped.
\<close>

definition filename_taken :: "documents_table \<Rightarrow> string \<Rightarrow> bool" where
  "filename_taken t fn = (fn \<in> set (map filename (rows t)))"

definition next_row_id :: "documents_table \<Rightarrow> nat" where
  "next_row_id t = Suc (foldr (\<lambda>r m. max (row_id r) m) (rows t) (sqlite_sequence t))"

definition add_document ::
  "sqlite_outcome \<Rightarrow> timestamp \<Rightarrow> documents_table \<Rightarrow> string \<Rightarrow> string \<Rightarrow> string \<Rightarrow>
     string option \<Rightarrow> bool \<times> documents_table" where
  "add_document eng now t fn fp st tid =
     (case eng of
        Sqlite_error \<Rightarrow> (False, t)
      | Executed \<Rightarrow>
          (True,
           if filename_taken t fn then t\<lparr>sqlite_sequence := next_row_id t\<rparr>
           else t\<lparr>rows := rows t @
                    [\<lparr>row_id = next_row_id t, filename = fn, filepath = fp,
                      status = st, trace_id = tid, error_message = None,
                      processed_date = None, created_date = now\<rparr>],
                  sqlite_sequence := next_row_id t\<rparr>))"

text \<open>Python truthiness of the optional \<^verbatim>\<open>error_message\<close>: None and the empty string are false.\<close>

fun truthy :: "string option \<Rightarrow> bool" where
  "truthy None = False"
| "truthy (Some s) = (s \<noteq> [])"

definition update_row :: "timestamp \<Rightarrow> string \<Rightarrow> string option \<Rightarrow> document \<Rightarrow> document" where
  "update_row now st em r =
     (if truthy em
      then r\<lparr>status := st, error_message := em, processed_date := Some now\<rparr>
      else r\<lparr>status := st, processed_date := Some now\<rparr>)"

definition update_document_status ::
  "sqlite_outcome \<Rightarrow> timestamp \<Rightarrow> documents_table \<Rightarrow> string \<Rightarrow> string \<Rightarrow> string option \<Rightarrow>
     bool \<times> documents_table" where
  "update_document_status eng now t fp st em =
     (case eng of
        Sqlite_error \<Rightarrow> (False, t)
      | Executed \<Rightarrow>
          (True, t\<lparr>rows := map (\<lambda>r. if filepath r = fp then update_row now st em r else r) (rows t)\<rparr>))"

definition get_document_status :: "sqlite_outcome \<Rightarrow> documents_table \<Rightarrow> string \<Rightarrow> string option" where
  "get_document_status eng t fp =
     (case eng of
        Sqlite_error \<Rightarrow> None
      | Executed \<Rightarrow>
          (case filter (\<lambda>r. filepath r = fp) (rows t) of
             [] \<Rightarrow> None
           | r # _ \<Rightarrow> Some (status r)))"

text \<open>A sequence of \<^verbatim>\<open>add_document\<close> calls, each with its arguments and the clock it sees.\<close>

record add_call =
  add_filename :: string
  add_filepath :: string
  add_status :: string
  add_trace_id :: "string option"
  add_clock :: timestamp

fun add_documents :: "documents_table \<Rightarrow> add_call list \<Rightarrow> documents_table" where
  "add_documents t [] = t"
| "add_documents t (c # cs) =
     add_documents
       (snd (add_document Executed (add_clock c) t (add_filename c) (add_filepath c)
               (add_status c) (add_trace_id c))) cs"

section \<open>Queue broker: the Redis commands the pipeline uses\<close>

text \<open>
  String keys carry a value and the time at which they expire (\<^verbatim>\<open>SET key value NX EX ttl\<close>);
  a key whose expiry time has been reached no longer exists. A Redis list is a HOL list whose
  head is the left end: \<^verbatim>\<open>RPUSH\<close> appends at the right end, \<^verbatim>\<open>BRPOP\<close> removes from the
  right end, \<^verbatim>\<open>BLPOP\<close> from the left end. A blocking pop that times out returns None.
  The model covers the runs in which the Redis server answers every command.
\<close>

type_synonym redis_strings = "string \<Rightarrow> (string \<times> timestamp) option"

definition redis_exists :: "timestamp \<Rightarrow> redis_strings \<Rightarrow> string \<Rightarrow> bool" where
  "redis_exists now ks k = (case ks k of None \<Rightarrow> False | Some (v, expiry) \<Rightarrow> now < expiry)"

definition redis_set_nx_ex ::
  "timestamp \<Rightarrow> redis_strings \<Rightarrow> string \<Rightarrow> string \<Rightarrow> nat \<Rightarrow> bool \<times> redis_strings" where
  "redis_set_nx_ex now ks k v ttl =
     (if redis_exists now ks k then (False, ks) else (True, ks(k := Some (v, now + ttl))))"

definition redis_delete :: "redis_strings \<Rightarrow> string \<Rightarrow> redis_strings" where
  "redis_delete ks k = ks(k := None)"

definition rpush :: "'a list \<Rightarrow> 'a \<Rightarrow> 'a list" where
  "rpush q x = q @ [x]"

definition brpop :: "'a list \<Rightarrow> ('a \<times> 'a list) option" where
  "brpop q = (if q = [] then None else Some (last q, butlast q))"

definition blpop :: "'a list \<Rightarrow> ('a \<times> 'a list) option" where
  "blpop q = (case q of [] \<Rightarrow> None | x # xs \<Rightarrow> Some (x, xs))"

section \<open>Payloads and the shared world\<close>

datatype meta_value = Str string | Num nat | Null

type_synonym metadata = "(string \<times> meta_value) list"

record extract_job =
  job_trace_id :: string
  job_file_path :: string
  job_filename :: string
  job_timestamp :: timestamp
  job_source :: string
  job_manager_id :: string

record chunk_job =
  chunk_trace_id :: string
  chunk_file_path :: string
  chunk_filename :: string
  document_json :: string
  markdown_output :: string
  chunk_metadata :: metadata
  chunk_format :: string
  extraction_timestamp :: timestamp
  chunk_worker_id :: string

record embed_job =
  chunks_file :: string
  embed_metadata :: metadata

text \<open>
  The staging artifact \<^verbatim>\<open><basename>_chunks.json\<close>. The chunker serializes every chunk to
  a string, so the chunks of a staging file are strings.
\<close>

record staging_file =
  staged_chunks :: "string list"
  staged_metadata :: metadata

text \<open>
  An embedding vector is a list of numbers; its components stand for the floats of the
  model, of which only the count (the dimension) is read by the code.
\<close>

type_synonym vector = "int list"

record chunk_document =
  cd_text :: string
  cd_embedding :: vector
  cd_embedding_model :: meta_value
  cd_embedding_timestamp :: timestamp
  cd_metadata :: metadata

record vector_record =
  vr_document_id :: string
  vr_metadata :: metadata
  vr_count :: nat
  vr_dimensions :: nat
  vr_model :: meta_value
  vr_embedded_chunks :: "chunk_document list"
  vr_embedding_timestamp :: timestamp
  vr_storage_type :: string

text \<open>
  The calls that change the status store or the broker, in the order they are made.
\<close>

datatype call =
    Db_add_document string string string "string option"
  | Db_update_document_status string string "string option"
  | Redis_set_nx string string nat
  | Redis_delete string
  | Rpush_extraction_jobs extract_job
  | Brpop_extraction_jobs extract_job
  | Rpush_redis_queue chunk_job
  | Brpop_redis_queue chunk_job
  | Rpush_embedding_queue embed_job
  | Brpop_embedding_queue embed_job

text \<open>
  The world shared by the processes: the documents table, the keys and lists of the
  broker, the files of the staging directory, the collection of the vector store, the
  number of trace ids generated so far and the log of calls.
\<close>

record world =
  documents :: documents_table
  redis_keys :: redis_strings
  extraction_jobs :: "extract_job list"
  redis_queue :: "chunk_job list"
  embedding_queue :: "embed_job list"
  processed_files :: "(string \<times> staging_file) list"
  collection :: "vector_record list"
  minted :: nat
  calls :: "call list"

definition lock_key :: "string \<Rightarrow> string" where
  "lock_key fn = ''lock:extraction:'' @ fn"

section \<open>Extraction manager (ingest\_tools/extraction\_manager.py)\<close>

text \<open>
  \<^verbatim>\<open>MASTER_LIBRARY\<close> and \<^verbatim>\<open>generate_trace_id\<close> come from the module \<^verbatim>\<open>globals\<close>;
  they are parameters here: the library path, and the trace id returned by the k-th call
  of the generator. The status-store handle of the manager sees one engine outcome per scan.
\<close>

record manager_env =
  master_library :: string
  lock_ttl :: nat
  generate_trace_id :: "nat \<Rightarrow> string"
  manager_sqlite :: sqlite_outcome

definition manager_id :: string where
  "manager_id = ''extraction-manager''"

definition endswith :: "string \<Rightarrow> string \<Rightarrow> bool" where
  "endswith s suffix = (length suffix \<le> length s \<and> drop (length s - length suffix) s = suffix)"

text \<open>\<^verbatim>\<open>os.path.join\<close> of two components on POSIX.\<close>

definition path_join :: "string \<Rightarrow> string \<Rightarrow> string" where
  "path_join a b =
     (if take 1 b = ''/'' then b
      else if a = [] \<or> endswith a ''/'' then a @ b
      else a @ ''/'' @ b)"

definition is_file_locked :: "timestamp \<Rightarrow> world \<Rightarrow> string \<Rightarrow> bool" where
  "is_file_locked now w fn = redis_exists now (redis_keys w) (lock_key fn)"

definition is_file_processed :: "manager_env \<Rightarrow> world \<Rightarrow> string \<Rightarrow> bool" where
  "is_file_processed e w fp =
     (case get_document_status (manager_sqlite e) (documents w) fp of
        None \<Rightarrow> False
      | Some s \<Rightarrow> s = ''processed'' \<or> s = ''processing'')"

definition claim_file :: "manager_env \<Rightarrow> timestamp \<Rightarrow> world \<Rightarrow> string \<Rightarrow> bool \<times> world" where
  "claim_file e now w fn =
     (let (claimed, ks) = redis_set_nx_ex now (redis_keys w) (lock_key fn) manager_id (lock_ttl e)
      in (claimed,
          w\<lparr>redis_keys := ks,
            calls := calls w @ [Redis_set_nx (lock_key fn) manager_id (lock_ttl e)]\<rparr>))"

definition create_extraction_job ::
  "manager_env \<Rightarrow> timestamp \<Rightarrow> world \<Rightarrow> string \<Rightarrow> string \<Rightarrow> string \<Rightarrow> world" where
  "create_extraction_job e now w fp fn tid =
     (let job_payload =
            \<lparr>job_trace_id = tid, job_file_path = fp, job_filename = fn, job_timestamp = now,
             job_source = ''master_library'', job_manager_id = manager_id\<rparr>;
          w1 = w\<lparr>documents :=
                    snd (add_document (manager_sqlite e) now (documents w) fn fp ''queued'' (Some tid)),
                  calls := calls w @ [Db_add_document fn fp ''queued'' (Some tid)]\<rparr>
      in w1\<lparr>extraction_jobs := rpush (extraction_jobs w1) job_payload,
            calls := calls w1 @ [Rpush_extraction_jobs job_payload]\<rparr>)"

text \<open>
  The body of \<^verbatim>\<open>for filename in os.listdir(MASTER_LIBRARY)\<close>, with the world and the
  counter \<^verbatim>\<open>jobs_created\<close> threaded through.
\<close>

fun scan_files ::
  "manager_env \<Rightarrow> timestamp \<Rightarrow> string list \<Rightarrow> world \<times> nat \<Rightarrow> world \<times> nat" where
  "scan_files e now [] (w, jobs_created) = (w, jobs_created)"
| "scan_files e now (fn # fns) (w, jobs_created) =
     (if \<not> endswith fn ''.pdf'' then scan_files e now fns (w, jobs_created)
      else
        let fp = path_join (master_library e) fn in
        if is_file_processed e w fp then scan_files e now fns (w, jobs_created)
        else if is_file_locked now w fn then scan_files e now fns (w, jobs_created)
        else
          (case claim_file e now w fn of
             (True, w1) \<Rightarrow>
               let tid = generate_trace_id e (minted w1);
                   w2 = create_extraction_job e now (w1\<lparr>minted := Suc (minted w1)\<rparr>) fp fn tid
               in scan_files e now fns (w2, Suc jobs_created)
           | (False, w1) \<Rightarrow> scan_files e now fns (w1, jobs_created)))"

text \<open>
  The directory listing is None when the library directory does not exist.
\<close>

definition scan_master_library ::
  "manager_env \<Rightarrow> timestamp \<Rightarrow> string list option \<Rightarrow> world \<Rightarrow> world \<times> nat" where
  "scan_master_library e now listing w =
     (case listing of
        None \<Rightarrow> (w, 0)
      | Some fns \<Rightarrow> scan_files e now fns (w, 0))"

section \<open>Extract worker (ingest\_tools/extraction.py)\<close>

text \<open>
  The converter is an external library: for a path it returns a document, returns a
  result without a document, or raises. \<^verbatim>\<open>os.path.getsize\<close> returns the size or raises
  \<^verbatim>\<open>OSError\<close> with a message. Both are inputs of the model, as is the engine outcome seen
  by the worker's status-store handle.
\<close>

record docling_document =
  export_to_dict :: string
  export_to_markdown :: string
  doc_metadata :: metadata

datatype conversion = Converted docling_document | No_document | Conversion_raises string

record extraction_env =
  convert :: "string \<Rightarrow> conversion"
  getsize :: "string \<Rightarrow> string + nat"
  worker_sqlite :: sqlite_outcome

definition basename :: "string \<Rightarrow> string" where
  "basename p = rev (takeWhile (\<lambda>c. c \<noteq> CHR ''/'') (rev p))"

text \<open>
  \<^verbatim>\<open>os.path.splitext\<close>: the extension starts at the last dot of the last path component,
  unless only dots precede it there.
\<close>

definition splitext :: "string \<Rightarrow> string \<times> string" where
  "splitext p =
     (let base = basename p;
          dir = take (length p - length base) p;
          ext = rev (takeWhile (\<lambda>c. c \<noteq> CHR ''.'') (rev base));
          root = take (length base - length ext - 1) base
      in if CHR ''.'' \<notin> set base then (p, [])
         else if filter (\<lambda>c. c \<noteq> CHR ''.'') root = [] then (p, [])
         else (dir @ root, CHR ''.'' # ext))"

fun meta_falsy :: "meta_value option \<Rightarrow> bool" where
  "meta_falsy None = True"
| "meta_falsy (Some (Str s)) = (s = [])"
| "meta_falsy (Some (Num n)) = (n = 0)"
| "meta_falsy (Some Null) = True"

definition document_meta_keys :: "string list" where
  "document_meta_keys =
     [''title'', ''author'', ''subject'', ''keywords'', ''creator'', ''producer'',
      ''creation_date'', ''modified_date'', ''language'']"

definition copy_key :: "metadata \<Rightarrow> metadata \<Rightarrow> string \<Rightarrow> metadata" where
  "copy_key src m k = (case map_of src k of None \<Rightarrow> m | Some v \<Rightarrow> dict_set k v m)"

text \<open>
  \<^verbatim>\<open>extract_metadata\<close>, given the size that \<^verbatim>\<open>os.path.getsize\<close> returned. Copying the
  listed keys from an empty document metadata changes nothing, which is what the guard
  \<^verbatim>\<open>document.metadata\<close> of the source does.
\<close>

definition extract_metadata ::
  "docling_document \<Rightarrow> string \<Rightarrow> string \<Rightarrow> timestamp \<Rightarrow> nat \<Rightarrow> metadata" where
  "extract_metadata document fp tid now sz =
     (let m0 = [(''file_path'', Str fp),
                (''file_name'', Str (basename fp)),
                (''file_type'', Str (drop 1 (snd (splitext fp)))),
                (''extraction_date'', Num now),
                (''file_size'', Num sz)];
          m1 = (if tid \<noteq> [] then dict_set ''trace_id'' (Str tid) m0 else m0);
          m2 = foldl (copy_key (doc_metadata document)) m1 document_meta_keys
      in if meta_falsy (map_of m2 ''title'')
         then dict_set ''title'' (Str (fst (splitext (basename fp)))) m2
         else m2)"

definition db_update_status ::
  "extraction_env \<Rightarrow> timestamp \<Rightarrow> world \<Rightarrow> string \<Rightarrow> string \<Rightarrow> string option \<Rightarrow> world" where
  "db_update_status env now w fp st em =
     w\<lparr>documents := snd (update_document_status (worker_sqlite env) now (documents w) fp st em),
       calls := calls w @ [Db_update_document_status fp st em]\<rparr>"

definition release_lock :: "world \<Rightarrow> string \<Rightarrow> world" where
  "release_lock w fn =
     w\<lparr>redis_keys := redis_delete (redis_keys w) (lock_key fn),
       calls := calls w @ [Redis_delete (lock_key fn)]\<rparr>"

text \<open>The handler \<^verbatim>\<open>except Exception as e\<close> of \<^verbatim>\<open>process_extraction_job\<close>.\<close>

definition job_failed ::
  "extraction_env \<Rightarrow> timestamp \<Rightarrow> world \<Rightarrow> string \<Rightarrow> string \<Rightarrow> string \<Rightarrow> world" where
  "job_failed env now w fp fn e =
     release_lock
       (db_update_status env now w fp ''error'' (Some (''Exception during processing: '' @ e))) fn"

definition chunk_payload ::
  "timestamp \<Rightarrow> string \<Rightarrow> extract_job \<Rightarrow> docling_document \<Rightarrow> nat \<Rightarrow> chunk_job" where
  "chunk_payload now wid job document sz =
     \<lparr>chunk_trace_id = job_trace_id job,
      chunk_file_path = job_file_path job,
      chunk_filename = job_filename job,
      document_json = export_to_dict document,
      markdown_output = export_to_markdown document,
      chunk_metadata = extract_metadata document (job_file_path job) (job_trace_id job) now sz,
      chunk_format = ''json'',
      extraction_timestamp = now,
      chunk_worker_id = wid\<rparr>"

text \<open>The statements of the success path after the payload is built (source lines 161 to 176).\<close>

definition job_completed :: "extraction_env \<Rightarrow> timestamp \<Rightarrow> world \<Rightarrow> extract_job \<Rightarrow> chunk_job \<Rightarrow> world" where
  "job_completed env now w job payload =
     (let w1 = w\<lparr>redis_queue := rpush (redis_queue w) payload,
                 calls := calls w @ [Rpush_redis_queue payload]\<rparr>;
          w2 = db_update_status env now w1 (job_file_path job) ''processed'' None
      in release_lock w2 (job_filename job))"

definition process_extraction_job ::
  "extraction_env \<Rightarrow> timestamp \<Rightarrow> string \<Rightarrow> world \<Rightarrow> extract_job \<Rightarrow> bool \<times> world" where
  "process_extraction_job env now wid w job =
     (let fp = job_file_path job;
          fn = job_filename job;
          w1 = db_update_status env now w fp ''processing'' None
      in case convert env fp of
           Conversion_raises e \<Rightarrow> (False, job_failed env now w1 fp fn e)
         | No_document \<Rightarrow>
             (False,
              db_update_status env now w1 fp ''error''
                (Some ''Failed to convert document - no document returned''))
         | Converted document \<Rightarrow>
             (case getsize env fp of
                Inl e \<Rightarrow> (False, job_failed env now w1 fp fn e)
              | Inr sz \<Rightarrow>
                  (True, job_completed env now w1 job (chunk_payload now wid job document sz))))"

text \<open>
  The worker loop: one clock reading per iteration made before the shutdown event is set.
  A pop that times out leaves the world as it is.
\<close>

fun process_extraction_queue ::
  "extraction_env \<Rightarrow> string \<Rightarrow> timestamp list \<Rightarrow> world \<Rightarrow> world" where
  "process_extraction_queue env wid [] w = w"
| "process_extraction_queue env wid (now # ticks) w =
     (case brpop (extraction_jobs w) of
        None \<Rightarrow> process_extraction_queue env wid ticks w
      | Some (job, rest) \<Rightarrow>
          process_extraction_queue env wid ticks
            (snd (process_extraction_job env now wid
                    (w\<lparr>extraction_jobs := rest,
                       calls := calls w @ [Brpop_extraction_jobs job]\<rparr>) job)))"

section \<open>Chunk worker (ingest\_tools/chunking.py)\<close>

text \<open>
  Deserializing the document (\<^verbatim>\<open>DoclingDocument.model_validate\<close>), converting the
  markdown fallback and the hybrid chunker are external; each of the first two returns a
  document or raises with a message. \<^verbatim>\<open>PROCESSED_DIR\<close> comes from the module \<^verbatim>\<open>globals\<close>.
\<close>

record chunking_env =
  model_validate :: "string \<Rightarrow> string + docling_document"
  convert_markdown :: "string \<Rightarrow> string + docling_document"
  chunker :: "docling_document \<Rightarrow> string list"
  processed_dir :: string

definition chunk_document ::
  "chunking_env \<Rightarrow> timestamp \<Rightarrow> docling_document \<Rightarrow> string \<Rightarrow> metadata \<Rightarrow> string list \<times> metadata" where
  "chunk_document env now document fp md =
     (let chunks = chunker env document
      in (chunks,
          if md \<noteq> []
          then dict_update md
                 [(''chunks_count'', Num (length chunks)),
                  (''chunking_timestamp'', Num now),
                  (''chunking_time'', Num now)]
          else [(''file_path'', Str fp),
                (''chunks_count'', Num (length chunks)),
                (''chunking_timestamp'', Num now),
                (''chunking_time'', Num now)]))"

definition save_chunks ::
  "chunking_env \<Rightarrow> world \<Rightarrow> string \<Rightarrow> string list \<Rightarrow> metadata \<Rightarrow> string \<times> world" where
  "save_chunks env w fp chunks md =
     (let output_file = path_join (processed_dir env) (basename fp @ ''_chunks.json'')
      in (output_file,
          w\<lparr>processed_files :=
              dict_set output_file \<lparr>staged_chunks = chunks, staged_metadata = md\<rparr>
                (processed_files w)\<rparr>))"

definition add_to_embedding_queue :: "world \<Rightarrow> string \<Rightarrow> metadata \<Rightarrow> world" where
  "add_to_embedding_queue w file md =
     (let queue_item = \<lparr>chunks_file = file, embed_metadata = md\<rparr>
      in w\<lparr>embedding_queue := rpush (embedding_queue w) queue_item,
           calls := calls w @ [Rpush_embedding_queue queue_item]\<rparr>)"

definition process_chunking_job :: "chunking_env \<Rightarrow> timestamp \<Rightarrow> world \<Rightarrow> chunk_job \<Rightarrow> bool \<times> world" where
  "process_chunking_job env now w job =
     (case (if document_json job = [] then convert_markdown env (markdown_output job)
            else model_validate env (document_json job)) of
        Inl e \<Rightarrow> (False, w)
      | Inr document \<Rightarrow>
          let (chunks, processed_metadata) =
                chunk_document env now document (chunk_file_path job) (chunk_metadata job);
              (file, w1) = save_chunks env w (chunk_file_path job) chunks processed_metadata
          in (True, add_to_embedding_queue w1 file processed_metadata))"

fun process_chunking_queue :: "chunking_env \<Rightarrow> timestamp list \<Rightarrow> world \<Rightarrow> world" where
  "process_chunking_queue env [] w = w"
| "process_chunking_queue env (now # ticks) w =
     (case brpop (redis_queue w) of
        None \<Rightarrow> process_chunking_queue env ticks w
      | Some (job, rest) \<Rightarrow>
          process_chunking_queue env ticks
            (snd (process_chunking_job env now
                    (w\<lparr>redis_queue := rest, calls := calls w @ [Brpop_redis_queue job]\<rparr>) job)))"

section \<open>Embed worker (ingest\_tools/embedding.py, db/mongodb\_helper.py)\<close>

text \<open>Decimal formatting: \<^verbatim>\<open>str(n)\<close> and the format \<^verbatim>\<open>{n:07d}\<close> for a number that is not negative.\<close>

definition digit_char :: "nat \<Rightarrow> char" where
  "digit_char d = ''0123456789'' ! d"

fun str_nat :: "nat \<Rightarrow> string" where
  "str_nat n = (if n < 10 then [digit_char n] else str_nat (n div 10) @ [digit_char (n mod 10)])"

declare str_nat.simps [simp del]

definition format_07d :: "nat \<Rightarrow> string" where
  "format_07d n = replicate (7 - length (str_nat n)) CHR ''0'' @ str_nat n"

fun py_str :: "meta_value \<Rightarrow> string" where
  "py_str (Str s) = s"
| "py_str (Num n) = str_nat n"
| "py_str Null = ''None''"

text \<open>
  The embedding model and the builtin \<^verbatim>\<open>hash\<close> of the interpreter that runs the worker are
  inputs. Python salts the hash of a string with a value drawn when the interpreter starts
  (unless \<^verbatim>\<open>PYTHONHASHSEED\<close> fixes it), so \<open>py_hash\<close> belongs to the worker process.
  \<^verbatim>\<open>x % 10000000\<close> is never negative, as \<open>mod\<close> on the integers.
\<close>

record embedding_env =
  model_name :: string
  encode :: "string list \<Rightarrow> vector list"
  py_hash :: "meta_value \<Rightarrow> int"

definition derive_document_id :: "(meta_value \<Rightarrow> int) \<Rightarrow> meta_value \<Rightarrow> string" where
  "derive_document_id h doc_path = ''doc_'' @ format_07d (nat (h doc_path mod 10000000))"

record enriched_chunk =
  ec_text :: string
  ec_embedding :: vector
  ec_embedding_model :: string
  ec_embedding_timestamp :: timestamp
  ec_fields :: metadata
  ec_document_id :: "meta_value option"

definition important_fields :: "string list" where
  "important_fields =
     [''file_path'', ''title'', ''author'', ''date'', ''source'', ''url'', ''doc_type'',
      ''category'', ''tags'', ''language'']"

definition enrich ::
  "embedding_env \<Rightarrow> timestamp \<Rightarrow> metadata \<Rightarrow> string \<times> vector \<Rightarrow> enriched_chunk" where
  "enrich env now md cv =
     \<lparr>ec_text = fst cv,
      ec_embedding = snd cv,
      ec_embedding_model = model_name env,
      ec_embedding_timestamp = now,
      ec_fields = (if md \<noteq> [] then foldl (copy_key md) [] important_fields else []),
      ec_document_id =
        (if md = [] then None
         else if has_key ''document_id'' md then map_of md ''document_id''
         else if has_key ''file_path'' md
              then Some (Str (derive_document_id (py_hash env) (the (map_of md ''file_path''))))
              else None)\<rparr>"

text \<open>
  \<^verbatim>\<open>embed_chunks\<close> reads \<^verbatim>\<open>embeddings[i]\<close> for every chunk, which raises when the model
  returned fewer vectors than texts.
\<close>

definition embed_chunks ::
  "embedding_env \<Rightarrow> timestamp \<Rightarrow> string list \<Rightarrow> metadata \<Rightarrow> string + enriched_chunk list" where
  "embed_chunks env now chunks md =
     (let embeddings = encode env chunks
      in if length embeddings < length chunks then Inl ''IndexError''
         else Inr (map (enrich env now md) (zip chunks embeddings)))"

text \<open>
  \<^verbatim>\<open>update_one({"document_id": id}, {"$set": document}, upsert=True)\<close>: the first record
  with that id is overwritten, and the record is inserted when there is none.
\<close>

fun replace_first :: "vector_record \<Rightarrow> vector_record list \<Rightarrow> vector_record list" where
  "replace_first r [] = []"
| "replace_first r (x # xs) =
     (if vr_document_id x = vr_document_id r then r # xs else x # replace_first r xs)"

definition store_embeddings :: "vector_record list \<Rightarrow> vector_record \<Rightarrow> vector_record list" where
  "store_embeddings coll r =
     (if vr_document_id r \<in> set (map vr_document_id coll) then replace_first r coll
      else coll @ [r])"

definition chunk_record ::
  "timestamp \<Rightarrow> metadata \<Rightarrow> meta_value \<Rightarrow> nat \<Rightarrow> enriched_chunk \<Rightarrow> vector_record" where
  "chunk_record now md doc_id i chunk =
     (let chunk_md = dict_update md [(''chunk_index'', Num i), (''document_id'', doc_id)]
      in \<lparr>vr_document_id = py_str doc_id @ ''_'' @ str_nat i,
          vr_metadata = chunk_md,
          vr_count = 1,
          vr_dimensions = length (ec_embedding chunk),
          vr_model = Str (ec_embedding_model chunk),
          vr_embedded_chunks =
            [\<lparr>cd_text = ec_text chunk, cd_embedding = ec_embedding chunk,
              cd_embedding_model = Str (ec_embedding_model chunk),
              cd_embedding_timestamp = ec_embedding_timestamp chunk,
              cd_metadata = chunk_md\<rparr>],
          vr_embedding_timestamp = now,
          vr_storage_type = ''mongodb''\<rparr>)"

text \<open>\<^verbatim>\<open>metadata.get('file_path', 'unknown')\<close>.\<close>

definition metadata_file_path :: "metadata \<Rightarrow> meta_value" where
  "metadata_file_path md = (case map_of md ''file_path'' of None \<Rightarrow> Str ''unknown'' | Some v \<Rightarrow> v)"

text \<open>The records that \<^verbatim>\<open>save_to_mongodb\<close> passes to \<^verbatim>\<open>store_embeddings\<close>, in order.\<close>

definition chunk_records ::
  "embedding_env \<Rightarrow> timestamp \<Rightarrow> enriched_chunk list \<Rightarrow> metadata \<Rightarrow> vector_record list" where
  "chunk_records env now embedded md =
     (let file_path = metadata_file_path md;
          doc_id = (if \<not> has_key ''document_id'' md
                    then Str (derive_document_id (py_hash env) file_path)
                    else the (map_of md ''document_id''));
          md1 = (if \<not> has_key ''document_id'' md then dict_set ''document_id'' doc_id md else md)
      in map (\<lambda>(i, chunk). chunk_record now md1 doc_id i chunk)
           (zip [0..<length embedded] embedded))"

definition save_to_mongodb ::
  "embedding_env \<Rightarrow> timestamp \<Rightarrow> vector_record list \<Rightarrow> enriched_chunk list \<Rightarrow> metadata \<Rightarrow>
     vector_record list" where
  "save_to_mongodb env now coll embedded md =
     foldl store_embeddings coll (chunk_records env now embedded md)"

text \<open>
  \<^verbatim>\<open>load_chunks_file\<close> raises when the file is missing; the staging files written by the
  chunk worker always carry the key \<^verbatim>\<open>chunks\<close>.
\<close>

definition loaded_metadata :: "string \<Rightarrow> staging_file \<Rightarrow> metadata" where
  "loaded_metadata file data =
     (if has_key ''file_path'' (staged_metadata data) then staged_metadata data
      else dict_set ''file_path'' (Str file) (staged_metadata data))"

definition load_chunks_file :: "world \<Rightarrow> string \<Rightarrow> string + (string list \<times> metadata)" where
  "load_chunks_file w file =
     (case map_of (processed_files w) file of
        None \<Rightarrow> Inl ''FileNotFoundError''
      | Some data \<Rightarrow> Inr (staged_chunks data, loaded_metadata file data))"

text \<open>
  The job metadata merged over the file metadata: \<^verbatim>\<open>{**file_metadata, **metadata}\<close> when
  both are non-empty, \<^verbatim>\<open>metadata or file_metadata or {}\<close> otherwise.
\<close>

definition merge_metadata :: "metadata \<Rightarrow> metadata \<Rightarrow> metadata" where
  "merge_metadata md file_metadata =
     (if md \<noteq> [] \<and> file_metadata \<noteq> [] then dict_update file_metadata md
      else if md \<noteq> [] then md
      else file_metadata)"

definition process_embedding_job ::
  "embedding_env \<Rightarrow> timestamp \<Rightarrow> world \<Rightarrow> embed_job \<Rightarrow> bool \<times> world" where
  "process_embedding_job env now w job =
     (case load_chunks_file w (chunks_file job) of
        Inl e \<Rightarrow> (False, w)
      | Inr (chunks, file_metadata) \<Rightarrow>
          let combined_metadata =
                dict_set ''embedding_model'' (Str (model_name env))
                  (merge_metadata (embed_metadata job) file_metadata)
          in (case embed_chunks env now chunks combined_metadata of
                Inl e \<Rightarrow> (False, w)
              | Inr embedded_chunks \<Rightarrow>
                  (True,
                   w\<lparr>collection :=
                       save_to_mongodb env now (collection w) embedded_chunks combined_metadata\<rparr>)))"

fun process_embedding_queue :: "embedding_env \<Rightarrow> timestamp list \<Rightarrow> world \<Rightarrow> world" where
  "process_embedding_queue env [] w = w"
| "process_embedding_queue env (now # ticks) w =
     (case brpop (embedding_queue w) of
        None \<Rightarrow> process_embedding_queue env ticks w
      | Some (job, rest) \<Rightarrow>
          process_embedding_queue env ticks
            (snd (process_embedding_job env now
                    (w\<lparr>embedding_queue := rest, calls := calls w @ [Brpop_embedding_queue job]\<rparr>)
                    job)))"

section \<open>Supervisor (ingest\_tools/run\_platform.py)\<close>

text \<open>
  \<^verbatim>\<open>BackendPipeline.processes\<close> is a dictionary in insertion order from process key to the
  record of the child. Each spawned child is identified by the serial number of the
  \<^verbatim>\<open>Popen\<close> attempt that created it; what \<^verbatim>\<open>process.poll()\<close> returns for a child during one
  pass of the monitor loop (None while it runs, its exit code afterwards) and whether a
  \<^verbatim>\<open>Popen\<close> attempt succeeds are inputs. The log files of the children are not modelled.
\<close>

record proc_info =
  proc_name :: string
  proc_worker_id :: "string option"
  proc_command :: string
  proc_handle :: nat

record pipeline =
  processes :: "(string \<times> proc_info) list"
  running :: bool
  attempts :: nat
  terminated :: "nat list"

definition process_key :: "string \<Rightarrow> string option \<Rightarrow> string" where
  "process_key name wid = (if truthy wid then name @ '':'' @ the wid else name)"

definition start_redis :: "(nat \<Rightarrow> bool) \<Rightarrow> pipeline \<Rightarrow> bool \<times> pipeline" where
  "start_redis popen_ok s =
     (if popen_ok (attempts s)
      then (True,
            s\<lparr>processes := dict_set ''redis''
                   \<lparr>proc_name = ''redis'', proc_worker_id = None, proc_command = ''redis-server'',
                    proc_handle = attempts s\<rparr> (processes s),
              attempts := Suc (attempts s)\<rparr>)
      else (False, s\<lparr>attempts := Suc (attempts s)\<rparr>))"

text \<open>
  \<^verbatim>\<open>start_component\<close>: the new child is stored under its process key when \<^verbatim>\<open>Popen\<close>
  succeeds; when it raises, the method returns False and the table is left as it is.
\<close>

definition start_component ::
  "(nat \<Rightarrow> bool) \<Rightarrow> pipeline \<Rightarrow> string \<Rightarrow> string \<Rightarrow> string option \<Rightarrow> bool \<times> pipeline" where
  "start_component popen_ok s name command wid =
     (let s1 = s\<lparr>attempts := Suc (attempts s)\<rparr>
      in if popen_ok (attempts s)
         then (True,
               s1\<lparr>processes := dict_set (process_key name wid)
                      \<lparr>proc_name = name, proc_worker_id = wid, proc_command = command,
                       proc_handle = attempts s\<rparr> (processes s1)\<rparr>)
         else (False, s1))"

text \<open>
  One execution of \<^verbatim>\<open>for process_key, proc_info in list(self.processes.items())\<close>: the
  loop runs over a snapshot of the table taken before the pass.
\<close>

fun monitor_pass ::
  "(nat \<Rightarrow> bool) \<Rightarrow> (nat \<Rightarrow> int option) \<Rightarrow> (string \<times> proc_info) list \<Rightarrow> pipeline \<Rightarrow> pipeline" where
  "monitor_pass popen_ok poll [] s = s"
| "monitor_pass popen_ok poll ((key, info) # snapshot) s =
     (case poll (proc_handle info) of
        None \<Rightarrow> monitor_pass popen_ok poll snapshot s
      | Some exit_code \<Rightarrow>
          if proc_name info = ''redis'' then monitor_pass popen_ok poll snapshot s
          else monitor_pass popen_ok poll snapshot
                 (snd (start_component popen_ok (s\<lparr>processes := dict_del key (processes s)\<rparr>)
                         (proc_name info) (proc_command info) (proc_worker_id info))))"

text \<open>
  \<^verbatim>\<open>while self.running\<close>: one poll function per pass that the loop gets to make.
\<close>

fun monitor ::
  "(nat \<Rightarrow> bool) \<Rightarrow> (nat \<Rightarrow> int option) list \<Rightarrow> pipeline \<Rightarrow> pipeline" where
  "monitor popen_ok [] s = s"
| "monitor popen_ok (poll # polls) s =
     (if running s then monitor popen_ok polls (monitor_pass popen_ok poll (processes s) s)
      else s)"

definition shutdown :: "pipeline \<Rightarrow> pipeline" where
  "shutdown s =
     s\<lparr>running := False, terminated := terminated s @ map (\<lambda>(k, info). proc_handle info) (processes s)\<rparr>"

text \<open>
  The table is well keyed when its keys are distinct and every child other than redis is
  stored under the key that \<^verbatim>\<open>start_component\<close> computes from its name and worker id, as
  in every table built by \<^verbatim>\<open>start_redis\<close> and \<^verbatim>\<open>start_component\<close>.
\<close>

definition well_keyed :: "(string \<times> proc_info) list \<Rightarrow> bool" where
  "well_keyed d \<longleftrightarrow>
     distinct (map fst d) \<and>
     list_all (\<lambda>(k, info). proc_name info = ''redis'' \<or>
                 k = process_key (proc_name info) (proc_worker_id info)) d"

text \<open>
  Handles are allocated when every child of the table was created by an earlier
  \<^verbatim>\<open>Popen\<close> attempt. \<^verbatim>\<open>BackendPipeline.__init__\<close> starts with an empty table.
\<close>

definition handles_allocated :: "pipeline \<Rightarrow> bool" where
  "handles_allocated s \<longleftrightarrow> list_all (\<lambda>(k, info). proc_handle info < attempts s) (processes s)"

definition initial_pipeline :: pipeline where
  "initial_pipeline = \<lparr>processes = [], running = False, attempts = 0, terminated = []\<rparr>"

section \<open>Auxiliary definitions and example states\<close>

definition ex_table :: documents_table where
  "ex_table =
     \<lparr>rows = [\<lparr>row_id = 1, filename = ''a.pdf'', filepath = ''/lib/a.pdf'', status = ''error'',
               trace_id = Some ''t1'', error_message = Some ''boom'',
               processed_date = Some 5, created_date = 1\<rparr>],
      sqlite_sequence = 1\<rparr>"

definition ex_adds :: "add_call list" where
  "ex_adds =
     [\<lparr>add_filename = ''a.pdf'', add_filepath = ''/lib/x'', add_status = ''queued'',
       add_trace_id = Some ''t1'', add_clock = 1\<rparr>,
      \<lparr>add_filename = ''b.pdf'', add_filepath = ''/lib/x'', add_status = ''queued'',
       add_trace_id = Some ''t2'', add_clock = 2\<rparr>]"

definition ex_manager :: manager_env where
  "ex_manager = \<lparr>master_library = ''/lib'', lock_ttl = 300,
                 generate_trace_id = (\<lambda>k. if k = 0 then ''trace-0'' else ''trace-1''),
                 manager_sqlite = Executed\<rparr>"

definition ex_world :: world where
  "ex_world = \<lparr>documents = ex_table, redis_keys = (\<lambda>k. None), extraction_jobs = [],
               redis_queue = [], embedding_queue = [], processed_files = [], collection = [],
               minted = 1, calls = []\<rparr>"

text \<open>The calls by which the manager dispatches the file named \<open>fn\<close>: its claim and its push.\<close>

fun dispatches :: "string \<Rightarrow> call \<Rightarrow> bool" where
  "dispatches fn (Redis_set_nx k v ttl) = (k = lock_key fn)"
| "dispatches fn (Rpush_extraction_jobs j) = (job_filename j = fn)"
| "dispatches fn _ = False"

definition untouched :: "string \<Rightarrow> world \<Rightarrow> world \<Rightarrow> bool" where
  "untouched fn w w' \<longleftrightarrow>
     filter (dispatches fn) (calls w') = filter (dispatches fn) (calls w) \<and>
     filter (\<lambda>j. job_filename j = fn) (extraction_jobs w') =
       filter (\<lambda>j. job_filename j = fn) (extraction_jobs w) \<and>
     redis_keys w' (lock_key fn) = redis_keys w (lock_key fn)"

definition ex_done :: world where
  "ex_done =
     \<lparr>documents =
        \<lparr>rows = [\<lparr>row_id = 1, filename = ''a.pdf'', filepath = ''/lib/a.pdf'',
                  status = ''processed'', trace_id = Some ''t1'', error_message = None,
                  processed_date = Some 5, created_date = 1\<rparr>],
         sqlite_sequence = 1\<rparr>,
      redis_keys = (\<lambda>k. None), extraction_jobs = [], redis_queue = [],
      embedding_queue = [], processed_files = [], collection = [], minted = 1, calls = []\<rparr>"

fun received :: "call list \<Rightarrow> extract_job list" where
  "received [] = []"
| "received (Brpop_extraction_jobs j # cs) = j # received cs"
| "received (c # cs) = received cs"

definition job_of :: "timestamp \<Rightarrow> string \<Rightarrow> string \<Rightarrow> string \<Rightarrow> extract_job" where
  "job_of now fp fn tid =
     \<lparr>job_trace_id = tid, job_file_path = fp, job_filename = fn, job_timestamp = now,
      job_source = ''master_library'', job_manager_id = manager_id\<rparr>"

definition ex_document :: docling_document where
  "ex_document = \<lparr>export_to_dict = ''{}'', export_to_markdown = ''# a'', doc_metadata = []\<rparr>"

definition ex_converts :: extraction_env where
  "ex_converts = \<lparr>convert = (\<lambda>p. Converted ex_document), getsize = (\<lambda>p. Inr 1024),
                  worker_sqlite = Executed\<rparr>"

definition ex_no_document :: extraction_env where
  "ex_no_document = \<lparr>convert = (\<lambda>p. No_document), getsize = (\<lambda>p. Inr 0),
                     worker_sqlite = Executed\<rparr>"

definition ex_job :: extract_job where
  "ex_job = job_of 10 ''/lib/a.pdf'' ''a.pdf'' ''trace-1''"

definition ex_claimed :: world where
  "ex_claimed =
     \<lparr>documents =
        \<lparr>rows = [\<lparr>row_id = 1, filename = ''a.pdf'', filepath = ''/lib/a.pdf'',
                  status = ''queued'', trace_id = Some ''trace-1'', error_message = None,
                  processed_date = None, created_date = 10\<rparr>],
         sqlite_sequence = 1\<rparr>,
      redis_keys = (\<lambda>k. None)(''lock:extraction:a.pdf'' := Some (''extraction-manager'', 310)),
      extraction_jobs = [], redis_queue = [],
      embedding_queue = [], processed_files = [], collection = [], minted = 2, calls = []\<rparr>"

definition ex_pipeline :: pipeline where
  "ex_pipeline =
     \<lparr>processes =
        [(''redis'', \<lparr>proc_name = ''redis'', proc_worker_id = None,
                      proc_command = ''redis-server'', proc_handle = 0\<rparr>),
         (''extraction-manager'',
            \<lparr>proc_name = ''extraction-manager'', proc_worker_id = None,
             proc_command = ''python3 extraction_manager.py --scan-interval 30 --lock-ttl 300'',
             proc_handle = 1\<rparr>),
         (''extraction-worker:extraction-worker-0'',
            \<lparr>proc_name = ''extraction-worker'', proc_worker_id = Some ''extraction-worker-0'',
             proc_command = ''python3 extraction.py --worker-id extraction-worker-0'',
             proc_handle = 2\<rparr>)],
      running = True, attempts = 3, terminated = []\<rparr>"

definition ex_poll :: "nat \<Rightarrow> int option" where
  "ex_poll h = (if h = 0 then Some 1 else if h = 1 then Some 0 else if h = 2 then Some (- 9) else None)"

definition digit_val :: "char \<Rightarrow> nat" where
  "digit_val c = of_char c - 48"

definition dec_value :: "string \<Rightarrow> nat" where
  "dec_value s = foldl (\<lambda>a c. 10 * a + digit_val c) 0 s"

definition record_keys :: "(meta_value \<Rightarrow> int) \<Rightarrow> meta_value \<Rightarrow> nat \<Rightarrow> string list" where
  "record_keys h v n = map (\<lambda>i. derive_document_id h v @ ''_'' @ str_nat i) [0..<n]"

definition add_key :: "string list \<Rightarrow> string \<Rightarrow> string list" where
  "add_key ks k = (if k \<in> set ks then ks else ks @ [k])"

definition ex_staged :: staging_file where
  "ex_staged =
     \<lparr>staged_chunks = [''first chunk'', ''second chunk''],
      staged_metadata = [(''file_path'', Str ''/lib/a.pdf''), (''trace_id'', Str ''trace-1''),
                         (''chunks_count'', Num 2)]\<rparr>"

definition ex_embed_job :: embed_job where
  "ex_embed_job =
     \<lparr>chunks_file = ''/processed/a.pdf_chunks.json'',
      embed_metadata = [(''file_path'', Str ''/lib/a.pdf''), (''trace_id'', Str ''trace-1''),
                        (''chunks_count'', Num 2)]\<rparr>"

definition ex_staged_world :: world where
  "ex_staged_world =
     \<lparr>documents = create_tables, redis_keys = (\<lambda>k. None), extraction_jobs = [], redis_queue = [],
      embedding_queue = [], processed_files = [(''/processed/a.pdf_chunks.json'', ex_staged)],
      collection = [], minted = 0, calls = []\<rparr>"

definition ex_embedder :: "int \<Rightarrow> embedding_env" where
  "ex_embedder salted =
     \<lparr>model_name = ''all-mpnet-base-v2'', encode = map (\<lambda>t. [1, 2, 3]),
      py_hash = (\<lambda>v. salted)\<rparr>"

definition ex_chunker :: chunking_env where
  "ex_chunker =
     \<lparr>model_validate = (\<lambda>s. Inr ex_document), convert_markdown = (\<lambda>s. Inr ex_document),
      chunker = (\<lambda>d. [''first chunk'', ''second chunk'']), processed_dir = ''/processed''\<rparr>"

definition ex_fresh_world :: world where
  "ex_fresh_world =
     \<lparr>documents = create_tables, redis_keys = (\<lambda>k. None), extraction_jobs = [], redis_queue = [],
      embedding_queue = [], processed_files = [], collection = [], minted = 0, calls = []\<rparr>"

section \<open>Properties of the status store\<close>

lemma map_unmatched:
  "fp \<notin> set (map filepath rs) \<Longrightarrow>
   map (\<lambda>r. if filepath r = fp then f r else r) rs = rs"
  by (induction rs) auto

text \<open>
  C10. An update whose filepath matches no row reports success (True) and leaves the
  table as it was.
\<close>

theorem update_unregistered_silent:
  "fp \<notin> set (map filepath (rows t)) \<Longrightarrow>
   update_document_status Executed now t fp st em = (True, t)"
  by (simp add: update_document_status_def map_unmatched)

theorem update_unregistered_silent_witness:
  "''/lib/b.pdf'' \<notin> set (map filepath (rows ex_table)) \<and>
   update_document_status Executed 7 ex_table ''/lib/b.pdf'' ''processing'' None = (True, ex_table)"
  using update_unregistered_silent [of "''/lib/b.pdf''" ex_table 7 "''processing''" None]
  by (simp add: ex_table_def)

text \<open>
  C9, as stated, fails: an update called without an error message does not null the
  column. The row of \<open>ex_table\<close> carries the message of an earlier failure and keeps it
  when the status is set to processing.
\<close>

theorem update_keeps_stale_message:
  "error_message (hd (rows (snd (update_document_status Executed 9 ex_table ''/lib/a.pdf''
       ''processing'' None)))) \<noteq> None"
  by (simp add: update_document_status_def ex_table_def update_row_def)

text \<open>
  C9, amended. After an update that the engine executes, the table has the same number of
  rows; every row whose filepath matches has the supplied status and the current time as
  processed date, its error message is the supplied one when that is a non-empty string
  and is left as it was otherwise, and its other columns are unchanged; every other row
  is unchanged.
\<close>

theorem update_sets_fields:
  assumes "i < length (rows t)"
  shows "fst (update_document_status Executed now t fp st em) = True \<and>
     length (rows (snd (update_document_status Executed now t fp st em))) = length (rows t) \<and>
     (let r = rows t ! i; r' = rows (snd (update_document_status Executed now t fp st em)) ! i in
      if filepath r = fp
      then status r' = st \<and> processed_date r' = Some now \<and>
           error_message r' = (if truthy em then em else error_message r) \<and>
           row_id r' = row_id r \<and> filename r' = filename r \<and> filepath r' = filepath r \<and>
           trace_id r' = trace_id r \<and> created_date r' = created_date r
      else r' = r)"
  using assms by (simp add: update_document_status_def update_row_def Let_def)

theorem update_sets_fields_witness:
  "(0::nat) < length (rows ex_table) \<and>
   (let r' = rows (snd (update_document_status Executed 9 ex_table ''/lib/a.pdf'' ''error''
                          (Some ''no pages''))) ! 0
    in status r' = ''error'' \<and> processed_date r' = Some 9 \<and>
       error_message r' = Some ''no pages'' \<and> trace_id r' = Some ''t1'')"
  using update_sets_fields [of 0 ex_table 9 "''/lib/a.pdf''" "''error''" "Some ''no pages''"]
  by (simp add: ex_table_def Let_def)

subsection \<open>Insertion\<close>

lemma add_document_rows:
  "rows (snd (add_document Executed now t fn fp st tid)) =
     (if filename_taken t fn then rows t
      else rows t @ [\<lparr>row_id = next_row_id t, filename = fn, filepath = fp,
                      status = st, trace_id = tid, error_message = None,
                      processed_date = None, created_date = now\<rparr>])"
  by (simp add: add_document_def)

lemma add_document_distinct:
  "distinct (map filename (rows t)) \<Longrightarrow>
   distinct (map filename (rows (snd (add_document Executed now t fn fp st tid))))"
  by (auto simp: add_document_rows filename_taken_def)

lemma add_document_prefix:
  "take (length (rows t)) (rows (snd (add_document Executed now t fn fp st tid))) = rows t"
  by (simp add: add_document_rows)

lemma add_documents_distinct:
  "distinct (map filename (rows t)) \<Longrightarrow> distinct (map filename (rows (add_documents t cs)))"
  by (induction cs arbitrary: t) (simp_all add: add_document_distinct)

lemma add_documents_prefix:
  "take (length (rows t)) (rows (add_documents t cs)) = rows t"
proof (induction cs arbitrary: t)
  case Nil
  then show ?case by simp
next
  case (Cons c cs)
  let ?t1 = "snd (add_document Executed (add_clock c) t (add_filename c) (add_filepath c)
               (add_status c) (add_trace_id c))"
  have len: "length (rows t) \<le> length (rows ?t1)"
    by (simp add: add_document_rows)
  have "take (length (rows t)) (rows (add_documents ?t1 cs)) =
        take (length (rows t)) (take (length (rows ?t1)) (rows (add_documents ?t1 cs)))"
    using len by (simp add: min_def)
  also have "\<dots> = take (length (rows t)) (rows ?t1)"
    by (simp only: Cons.IH)
  also have "\<dots> = rows t"
    by (rule add_document_prefix)
  finally show ?case by simp
qed

text \<open>
  C6, as stated, fails: the UNIQUE constraint of the table is on \<^verbatim>\<open>filename\<close>, and
  \<^verbatim>\<open>filepath\<close> has none. Two adds with different filenames and the same filepath leave
  two rows with that filepath.
\<close>

theorem add_filepath_not_unique:
  "\<not> distinct (map filepath (rows (add_documents create_tables ex_adds)))"
  by (simp add: ex_adds_def create_tables_def add_document_def filename_taken_def next_row_id_def)

text \<open>
  C6, amended. The status store enforces uniqueness on filename: starting from a table
  with at most one row per filename, every sequence of adds leaves at most one row per
  filename and keeps the rows that were there, each as it was; an add for a filename that
  already has a row reports success and leaves every row of the table as it was, so the
  earlier row keeps its trace id and its filepath. Such an add is not without effect on
  the table as a whole: it advances the AUTOINCREMENT counter.
\<close>

theorem add_unique_filename:
  assumes "distinct (map filename (rows t))"
  shows "distinct (map filename (rows (add_documents t cs))) \<and>
         take (length (rows t)) (rows (add_documents t cs)) = rows t \<and>
         (filename_taken (add_documents t cs) fn \<longrightarrow>
            fst (add_document Executed now (add_documents t cs) fn fp st tid) = True \<and>
            rows (snd (add_document Executed now (add_documents t cs) fn fp st tid)) =
              rows (add_documents t cs) \<and>
            sqlite_sequence (snd (add_document Executed now (add_documents t cs) fn fp st tid)) =
              next_row_id (add_documents t cs))"
  using assms by (simp add: add_documents_distinct add_documents_prefix add_document_def)

theorem add_unique_filename_witness:
  "distinct (map filename (rows create_tables)) \<and>
   distinct (map filename (rows (add_documents create_tables ex_adds))) \<and>
   filename_taken (add_documents create_tables ex_adds) ''a.pdf'' \<and>
   map (\<lambda>r. (row_id r, filename r, filepath r, trace_id r))
     (rows (snd (add_document Executed 3 (add_documents create_tables ex_adds) ''a.pdf''
        ''/lib/a.pdf'' ''queued'' (Some ''t3'')))) =
     [(1, ''a.pdf'', ''/lib/x'', Some ''t1''), (2, ''b.pdf'', ''/lib/x'', Some ''t2'')] \<and>
   sqlite_sequence (add_documents create_tables ex_adds) = 2 \<and>
   sqlite_sequence (snd (add_document Executed 3 (add_documents create_tables ex_adds) ''a.pdf''
        ''/lib/a.pdf'' ''queued'' (Some ''t3''))) = 3"
  using add_unique_filename [of create_tables ex_adds "''a.pdf''" 3 "''/lib/a.pdf''" "''queued''" "Some ''t3''"]
  by (simp add: ex_adds_def create_tables_def add_document_def filename_taken_def next_row_id_def)

section \<open>Properties of the extraction manager\<close>

lemma get_status_add:
  "get_document_status Executed t fp = Some s \<Longrightarrow>
   get_document_status Executed (snd (add_document eng now t fn' fp' st tid)) fp = Some s"
  by (cases eng) (auto simp: get_document_status_def add_document_def split: list.splits)

lemma processed_Executed:
  "is_file_processed e w fp \<Longrightarrow> manager_sqlite e = Executed"
  by (cases "manager_sqlite e") (simp_all add: is_file_processed_def get_document_status_def)

lemma processed_claim_file:
  "is_file_processed e w fp \<Longrightarrow> is_file_processed e (snd (claim_file e now w fn')) fp"
  by (simp add: is_file_processed_def claim_file_def split: prod.splits)

lemma processed_create:
  assumes "is_file_processed e w fp"
  shows "is_file_processed e (create_extraction_job e now (w\<lparr>minted := k\<rparr>) fp' fn' tid) fp"
proof -
  have ex: "manager_sqlite e = Executed" using assms by (rule processed_Executed)
  obtain s where s: "get_document_status Executed (documents w) fp = Some s"
    and p: "s = ''processed'' \<or> s = ''processing''"
    using assms ex by (auto simp: is_file_processed_def split: option.splits)
  show ?thesis
    using get_status_add [OF s, of Executed now fn' fp' "''queued''" "Some tid"] p ex
    by (simp add: is_file_processed_def create_extraction_job_def Let_def)
qed

lemma lock_key_inj [simp]: "lock_key a = lock_key b \<longleftrightarrow> a = b"
  by (simp add: lock_key_def)

lemma claim_other:
  "fn' \<noteq> fn \<Longrightarrow>
   filter (dispatches fn) (calls (snd (claim_file e now w fn'))) = filter (dispatches fn) (calls w) \<and>
   extraction_jobs (snd (claim_file e now w fn')) = extraction_jobs w \<and>
   redis_keys (snd (claim_file e now w fn')) (lock_key fn) = redis_keys w (lock_key fn)"
  by (auto simp: claim_file_def redis_set_nx_ex_def split: prod.splits if_splits)

lemma create_other:
  "fn' \<noteq> fn \<Longrightarrow>
   filter (dispatches fn) (calls (create_extraction_job e now w fp' fn' tid)) =
     filter (dispatches fn) (calls w) \<and>
   filter (\<lambda>j. job_filename j = fn) (extraction_jobs (create_extraction_job e now w fp' fn' tid)) =
     filter (\<lambda>j. job_filename j = fn) (extraction_jobs w) \<and>
   redis_keys (create_extraction_job e now w fp' fn' tid) = redis_keys w"
  by (simp add: create_extraction_job_def rpush_def Let_def)

lemma scan_files_skips:
  "is_file_processed e w (path_join (master_library e) fn) \<Longrightarrow>
   untouched fn w (fst (scan_files e now fns (w, n)))"
proof (induction fns arbitrary: w n)
  case Nil
  then show ?case by (simp add: untouched_def)
next
  case (Cons f fns)
  let ?fp = "path_join (master_library e) fn"
  let ?fp' = "path_join (master_library e) f"
  show ?case
  proof (cases "\<not> endswith f ''.pdf'' \<or> is_file_processed e w ?fp' \<or> is_file_locked now w f")
    case True
    then have "scan_files e now (f # fns) (w, n) = scan_files e now fns (w, n)"
      by (auto simp: Let_def)
    then show ?thesis using Cons by simp
  next
    case False
    then have ne: "f \<noteq> fn" using Cons.prems by auto
    obtain c w1 where cf: "claim_file e now w f = (c, w1)" by (cases "claim_file e now w f")
    have p1: "is_file_processed e w1 ?fp"
      using processed_claim_file [OF Cons.prems, of now f] cf by simp
    have u1: "untouched fn w w1" using claim_other [OF ne, of e now w] cf
      by (simp add: untouched_def)
    show ?thesis
    proof (cases c)
      case True
      let ?w2 = "create_extraction_job e now (w1\<lparr>minted := Suc (minted w1)\<rparr>) ?fp' f
                   (generate_trace_id e (minted w1))"
      have step: "scan_files e now (f # fns) (w, n) = scan_files e now fns (?w2, Suc n)"
        using False cf True by (simp add: Let_def)
      have p2: "is_file_processed e ?w2 ?fp" using p1 by (rule processed_create)
      have u2: "untouched fn w ?w2"
        using u1 create_other [OF ne, of e now "w1\<lparr>minted := Suc (minted w1)\<rparr>" ?fp'
                "generate_trace_id e (minted w1)"]
        by (simp add: untouched_def)
      from Cons.IH [OF p2, of "Suc n"] u2 step show ?thesis by (simp add: untouched_def)
    next
      case F: False
      have step: "scan_files e now (f # fns) (w, n) = scan_files e now fns (w1, n)"
        using False cf F by (simp add: Let_def)
      from Cons.IH [OF p1, of n] u1 step show ?thesis by (simp add: untouched_def)
    qed
  qed
qed

text \<open>
  C3, as stated, fails: the status check of the manager skips only the statuses processed
  and processing. The file of \<open>ex_world\<close> has status error and no lock; a scan claims it
  and pushes an extract job for it.
\<close>

theorem error_file_dispatched:
  "get_document_status Executed (documents ex_world) ''/lib/a.pdf'' = Some ''error'' \<and>
   filter (dispatches ''a.pdf'')
     (calls (fst (scan_master_library ex_manager 10 (Some [''a.pdf'']) ex_world))) =
     [Redis_set_nx ''lock:extraction:a.pdf'' ''extraction-manager'' 300,
      Rpush_extraction_jobs
        \<lparr>job_trace_id = ''trace-1'', job_file_path = ''/lib/a.pdf'', job_filename = ''a.pdf'',
         job_timestamp = 10, job_source = ''master_library'',
         job_manager_id = ''extraction-manager''\<rparr>]"
  by (simp add: scan_master_library_def ex_manager_def ex_world_def ex_table_def endswith_def
      path_join_def is_file_processed_def get_document_status_def is_file_locked_def
      redis_exists_def claim_file_def redis_set_nx_ex_def create_extraction_job_def
      add_document_def filename_taken_def rpush_def manager_id_def lock_key_def Let_def)

text \<open>
  C3, amended. The manager never dispatches a file whose status is processed or
  processing: in every scan, for every file whose status check reports one of the two,
  the scan makes no claim call on the lock of that file, pushes no extract job for it
  and leaves its lock key as it was.
\<close>

theorem scan_skips_processed:
  assumes "is_file_processed e w (path_join (master_library e) fn)"
  shows "filter (dispatches fn) (calls (fst (scan_master_library e now listing w))) =
           filter (dispatches fn) (calls w) \<and>
         filter (\<lambda>j. job_filename j = fn) (extraction_jobs (fst (scan_master_library e now listing w))) =
           filter (\<lambda>j. job_filename j = fn) (extraction_jobs w) \<and>
         redis_keys (fst (scan_master_library e now listing w)) (lock_key fn) =
           redis_keys w (lock_key fn)"
proof (cases listing)
  case None
  then show ?thesis by (simp add: scan_master_library_def)
next
  case (Some fns)
  then show ?thesis
    using scan_files_skips [OF assms, of now fns 0]
    by (simp add: scan_master_library_def untouched_def)
qed


theorem scan_skips_processed_witness:
  "is_file_processed ex_manager ex_done (path_join (master_library ex_manager) ''a.pdf'') \<and>
   filter (dispatches ''a.pdf'')
     (calls (fst (scan_master_library ex_manager 10 (Some [''a.pdf'', ''b.pdf'']) ex_done))) = [] \<and>
   filter (\<lambda>j. job_filename j = ''a.pdf'')
     (extraction_jobs (fst (scan_master_library ex_manager 10 (Some [''a.pdf'', ''b.pdf'']) ex_done))) = []"
  using scan_skips_processed [of ex_manager ex_done "''a.pdf''" 10 "Some [''a.pdf'', ''b.pdf'']"]
  by (simp add: ex_manager_def ex_done_def is_file_processed_def get_document_status_def
      path_join_def endswith_def)

section \<open>Properties of the extract worker\<close>

lemma brpop_rpush: "brpop (rpush q x) = Some (x, q)"
  by (simp add: brpop_def rpush_def)

lemma received_append: "received (xs @ ys) = received xs @ received ys"
  by (induction xs rule: received.induct) simp_all

lemma create_extraction_job_queue:
  "extraction_jobs (create_extraction_job e now w fp fn tid) =
     rpush (extraction_jobs w) (job_of now fp fn tid)"
  by (simp add: create_extraction_job_def job_of_def Let_def)

lemma create_extraction_job_received:
  "received (calls (create_extraction_job e now w fp fn tid)) = received (calls w)"
  by (simp add: create_extraction_job_def Let_def received_append)

lemma process_extraction_job_received:
  "received (calls (snd (process_extraction_job env now wid w job))) = received (calls w)"
  by (simp add: process_extraction_job_def db_update_status_def job_failed_def
      job_completed_def release_lock_def Let_def received_append
      split: conversion.splits sum.splits)

lemma process_extraction_job_queue:
  "extraction_jobs (snd (process_extraction_job env now wid w job)) = extraction_jobs w"
  by (simp add: process_extraction_job_def db_update_status_def job_failed_def
      job_completed_def release_lock_def Let_def
      split: conversion.splits sum.splits)

lemma worker_iteration:
  "extraction_jobs w = rpush q job \<Longrightarrow>
   extraction_jobs (process_extraction_queue env wid [now] w) = q \<and>
   received (calls (process_extraction_queue env wid [now] w)) = received (calls w) @ [job]"
  by (simp add: brpop_rpush process_extraction_job_queue process_extraction_job_received
      received_append)

lemma process_extraction_queue_append:
  "process_extraction_queue env wid (ts @ us) w =
     process_extraction_queue env wid us (process_extraction_queue env wid ts w)"
  by (induction ts arbitrary: w) (simp_all split: option.splits)

text \<open>
  C1 (delivery order of the extract queue). The manager pushes with \<^verbatim>\<open>rpush\<close> and the
  worker pops with \<^verbatim>\<open>brpop\<close>, both at the right end of the list. When the manager
  creates job A and then job B and one worker makes two loop iterations, the worker
  receives B first and A second, whatever the queue held before: the queue is last-in
  first-out for its single consumer.
\<close>

theorem extraction_queue_last_in_first_out:
  "received (calls (process_extraction_queue env wid [now1, now2]
       (create_extraction_job e nowB (create_extraction_job e nowA w fpA fnA tidA) fpB fnB tidB))) =
     received (calls w) @ [job_of nowB fpB fnB tidB, job_of nowA fpA fnA tidA]"
proof -
  let ?w2 = "create_extraction_job e nowB (create_extraction_job e nowA w fpA fnA tidA) fpB fnB tidB"
  have q2: "extraction_jobs ?w2 =
              rpush (rpush (extraction_jobs w) (job_of nowA fpA fnA tidA)) (job_of nowB fpB fnB tidB)"
    by (simp add: create_extraction_job_queue)
  have r2: "received (calls ?w2) = received (calls w)"
    by (simp add: create_extraction_job_received)
  let ?w3 = "process_extraction_queue env wid [now1] ?w2"
  have s3: "extraction_jobs ?w3 = rpush (extraction_jobs w) (job_of nowA fpA fnA tidA) \<and>
            received (calls ?w3) = received (calls ?w2) @ [job_of nowB fpB fnB tidB]"
    using worker_iteration [OF q2] by blast
  have s4: "received (calls (process_extraction_queue env wid [now2] ?w3)) =
              received (calls ?w3) @ [job_of nowA fpA fnA tidA]"
    using worker_iteration [of ?w3 "extraction_jobs w" "job_of nowA fpA fnA tidA" env wid now2] s3
    by blast
  have "process_extraction_queue env wid [now1, now2] ?w2 =
          process_extraction_queue env wid [now2] ?w3"
    using process_extraction_queue_append [of env wid "[now1]" "[now2]" ?w2] by simp
  then show ?thesis using s3 s4 r2 by simp
qed

lemma filter_update_rows:
  "filter (\<lambda>r. filepath r = fp)
     (map (\<lambda>r. if filepath r = fp then update_row now st em r else r) rs) =
   map (update_row now st em) (filter (\<lambda>r. filepath r = fp) rs)"
  by (induction rs) (auto simp: update_row_def)

lemma filter_filepath_empty:
  "(filter (\<lambda>r. filepath r = fp) (rs :: document list) = []) = (fp \<notin> set (map filepath rs))"
  by (induction rs) auto

lemma get_status_update:
  "get_document_status Executed (snd (update_document_status Executed now t fp st em)) fp =
     (if fp \<in> set (map filepath (rows t)) then Some st else None)"
proof (cases "filter (\<lambda>r. filepath r = fp) (rows t)")
  case Nil
  then show ?thesis
    using filter_filepath_empty [of fp "rows t"]
    by (simp add: get_document_status_def update_document_status_def filter_update_rows)
next
  case (Cons r rs)
  then have "fp \<in> set (map filepath (rows t))"
    using filter_filepath_empty [of fp "rows t"] by simp
  then show ?thesis
    using Cons
    by (simp add: get_document_status_def update_document_status_def filter_update_rows
        update_row_def)
qed

lemma update_filepaths:
  "map filepath (rows (snd (update_document_status eng now t fp st em))) = map filepath (rows t)"
  by (cases eng) (simp_all add: update_document_status_def update_row_def comp_def)

text \<open>
  C2 (conversion returns no document). The worker sets the status to processing and then
  to error with the message of the failed conversion, returns False and pushes no chunk
  job; it makes no call to delete the claim lock, and the lock keys of the broker are as
  they were before the job.
\<close>

theorem no_document_keeps_lock:
  assumes "convert env (job_file_path job) = No_document"
  shows "fst (process_extraction_job env now wid w job) = False \<and>
         calls (snd (process_extraction_job env now wid w job)) =
           calls w @
             [Db_update_document_status (job_file_path job) ''processing'' None,
              Db_update_document_status (job_file_path job) ''error''
                (Some ''Failed to convert document - no document returned'')] \<and>
         redis_queue (snd (process_extraction_job env now wid w job)) = redis_queue w \<and>
         redis_keys (snd (process_extraction_job env now wid w job)) = redis_keys w"
  using assms by (simp add: process_extraction_job_def db_update_status_def Let_def)

theorem no_document_keeps_lock_witness:
  "convert ex_no_document (job_file_path ex_job) = No_document \<and>
   redis_exists 20 (redis_keys ex_claimed) (lock_key (job_filename ex_job)) \<and>
   redis_exists 20 (redis_keys (snd (process_extraction_job ex_no_document 20 ''extraction-worker-0''
        ex_claimed ex_job))) (lock_key (job_filename ex_job))"
  using no_document_keeps_lock [of ex_no_document ex_job 20 "''extraction-worker-0''" ex_claimed]
  by (simp add: ex_no_document_def ex_job_def job_of_def ex_claimed_def redis_exists_def lock_key_def)

text \<open>
  C8. On the success path (the converter returned a document and nothing raised), the
  calls made after the conversion are exactly: the push of the chunk job onto the chunk
  queue, then the status update to processed, then the deletion of the claim lock
  \<^verbatim>\<open>lock:extraction:<filename>\<close>. Before the conversion the worker has made one call, the
  status update to processing. Afterwards the chunk job is at the tail of the chunk
  queue, the lock key is absent, and, when the engine executes the updates, the status of
  a registered file reads processed.
\<close>

theorem success_path_effects:
  assumes "convert env (job_file_path job) = Converted d"
    and "getsize env (job_file_path job) = Inr sz"
  shows "fst (process_extraction_job env now wid w job) = True \<and>
         calls (snd (process_extraction_job env now wid w job)) =
           calls (db_update_status env now w (job_file_path job) ''processing'' None) @
             [Rpush_redis_queue (chunk_payload now wid job d sz),
              Db_update_document_status (job_file_path job) ''processed'' None,
              Redis_delete (lock_key (job_filename job))] \<and>
         calls (db_update_status env now w (job_file_path job) ''processing'' None) =
           calls w @ [Db_update_document_status (job_file_path job) ''processing'' None] \<and>
         redis_queue (snd (process_extraction_job env now wid w job)) =
           redis_queue w @ [chunk_payload now wid job d sz] \<and>
         redis_keys (snd (process_extraction_job env now wid w job)) =
           (redis_keys w)(lock_key (job_filename job) := None) \<and>
         (worker_sqlite env = Executed \<longrightarrow>
            get_document_status Executed (documents (snd (process_extraction_job env now wid w job)))
              (job_file_path job) =
            (if job_file_path job \<in> set (map filepath (rows (documents w)))
             then Some ''processed'' else None))"
  using assms
  by (simp add: process_extraction_job_def db_update_status_def job_completed_def
      release_lock_def redis_delete_def rpush_def Let_def get_status_update update_filepaths)

theorem success_path_effects_witness:
  "convert ex_converts (job_file_path ex_job) = Converted ex_document \<and>
   getsize ex_converts (job_file_path ex_job) = Inr 1024 \<and>
   worker_sqlite ex_converts = Executed \<and>
   calls (snd (process_extraction_job ex_converts 20 ''extraction-worker-0'' ex_claimed ex_job)) =
     [Db_update_document_status ''/lib/a.pdf'' ''processing'' None,
      Rpush_redis_queue (chunk_payload 20 ''extraction-worker-0'' ex_job ex_document 1024),
      Db_update_document_status ''/lib/a.pdf'' ''processed'' None,
      Redis_delete ''lock:extraction:a.pdf''] \<and>
   get_document_status Executed
     (documents (snd (process_extraction_job ex_converts 20 ''extraction-worker-0'' ex_claimed ex_job)))
     ''/lib/a.pdf'' = Some ''processed'' \<and>
   \<not> redis_exists 20
       (redis_keys (snd (process_extraction_job ex_converts 20 ''extraction-worker-0'' ex_claimed ex_job)))
       ''lock:extraction:a.pdf''"
  using success_path_effects [of ex_converts ex_job ex_document 1024 20 "''extraction-worker-0''" ex_claimed]
  by (simp add: ex_converts_def ex_job_def job_of_def ex_claimed_def redis_exists_def lock_key_def
      db_update_status_def)

section \<open>Properties of the embed worker\<close>

subsection \<open>Decimal formatting\<close>

lemma digit_val_char: "d < 10 \<Longrightarrow> digit_val (digit_char d) = d"
proof -
  assume "d < 10"
  then have "d \<in> {0,1,2,3,4,5,6,7,8,9}" by auto
  then show ?thesis by (auto simp: digit_val_def digit_char_def)
qed

lemma dec_value_snoc: "dec_value (s @ [c]) = 10 * dec_value s + digit_val c"
  by (simp add: dec_value_def)

lemma dec_value_str_nat: "dec_value (str_nat n) = n"
proof (induction n rule: str_nat.induct)
  case (1 n)
  show ?case
  proof (cases "n < 10")
    case True
    then show ?thesis
      by (subst str_nat.simps) (simp add: dec_value_def digit_val_char)
  next
    case False
    then have "dec_value (str_nat (n div 10)) = n div 10" using 1 by simp
    then show ?thesis using False
      by (subst str_nat.simps) (simp add: dec_value_snoc digit_val_char)
  qed
qed

lemma str_nat_inj: "str_nat a = str_nat b \<longleftrightarrow> a = b"
  by (metis dec_value_str_nat)

lemma dec_value_zeros: "dec_value (replicate k CHR ''0'' @ s) = dec_value s"
proof -
  have "foldl (\<lambda>a c. 10 * a + digit_val c) 0 (replicate k CHR ''0'') = 0"
    by (induction k) (simp_all add: digit_val_def)
  then show ?thesis by (simp add: dec_value_def)
qed

lemma format_07d_inj: "format_07d a = format_07d b \<longleftrightarrow> a = b"
  by (metis dec_value_zeros dec_value_str_nat format_07d_def)

lemma length_str_nat: "n < 10 ^ k \<Longrightarrow> 0 < k \<Longrightarrow> length (str_nat n) \<le> k"
proof (induction n arbitrary: k rule: str_nat.induct)
  case (1 n)
  show ?case
  proof (cases "n < 10")
    case True
    then show ?thesis using 1(3) by (subst str_nat.simps) simp
  next
    case False
    then obtain k' where k': "k = Suc k'" using 1(3) by (cases k) auto
    with False 1(2) have "0 < k'" by (cases k') auto
    moreover have "n div 10 < 10 ^ k'" using 1(2) k' by (simp add: less_mult_imp_div_less mult.commute)
    ultimately have "length (str_nat (n div 10)) \<le> k'" using 1(1) False by simp
    then show ?thesis using False k' by (subst str_nat.simps) simp
  qed
qed

lemma length_format_07d: "n < 10000000 \<Longrightarrow> length (format_07d n) = 7"
  using length_str_nat [of n 7] by (simp add: format_07d_def)

lemma length_derive: "length (derive_document_id h v) = 11"
proof -
  have "h v mod 10000000 < 10000000" by simp
  then have "nat (h v mod 10000000) < 10000000" by linarith
  then show ?thesis by (simp add: derive_document_id_def length_format_07d)
qed

lemma derive_eq_iff:
  "derive_document_id h1 v = derive_document_id h2 v \<longleftrightarrow> h1 v mod 10000000 = h2 v mod 10000000"
proof -
  have "0 \<le> h1 v mod 10000000" "0 \<le> h2 v mod 10000000" by simp_all
  then have "nat (h1 v mod 10000000) = nat (h2 v mod 10000000) \<longleftrightarrow>
             h1 v mod 10000000 = h2 v mod 10000000" by linarith
  then show ?thesis by (simp add: derive_document_id_def format_07d_inj)
qed

subsection \<open>Dictionaries\<close>

lemma has_key_Nil [simp]: "\<not> has_key k []"
  by (simp add: has_key_def)

lemma replace_keys:
  "map fst (map (\<lambda>(k', v'). if k' = k then (k', v) else (k', v')) d) = map fst d"
  by (induction d) auto

lemma dict_set_keys: "set (map fst (dict_set k v d)) = insert k (set (map fst d))"
proof (cases "has_key k d")
  case True
  then show ?thesis
    using replace_keys [of k v d] by (auto simp: dict_set_def has_key_def simp del: map_map)
next
  case False
  then show ?thesis by (simp add: dict_set_def)
qed

lemma has_key_dict_set: "has_key k (dict_set k' v d) \<longleftrightarrow> k = k' \<or> has_key k d"
  using dict_set_keys [of k' v d] by (simp add: has_key_def)

lemma dict_update_Cons: "dict_update a (x # b) = dict_update (dict_set (fst x) (snd x) a) b"
  by (simp add: dict_update_def split: prod.splits)

lemma has_key_dict_update: "has_key k (dict_update a b) \<longleftrightarrow> has_key k a \<or> has_key k b"
proof (induction b arbitrary: a)
  case Nil
  then show ?case by (simp add: dict_update_def)
next
  case (Cons x b)
  have "has_key k (x # b) \<longleftrightarrow> k = fst x \<or> has_key k b"
    by (auto simp: has_key_def)
  then show ?case
    using Cons [of "dict_set (fst x) (snd x) a"]
    by (simp add: dict_update_Cons has_key_dict_set) blast
qed

lemma map_of_replace_same:
  "k \<in> set (map fst d) \<Longrightarrow>
   map_of (map (\<lambda>(k', v'). if k' = k then (k', v) else (k', v')) d) k = Some v"
proof (induction d)
  case Nil
  then show ?case by simp
next
  case (Cons x d)
  obtain a b where x: "x = (a, b)" by (cases x)
  show ?case
  proof (cases "a = k")
    case True
    then show ?thesis by (simp add: x)
  next
    case False
    then have "k \<in> set (map fst d)" using Cons.prems by (simp add: x)
    then show ?thesis using Cons.IH False by (simp add: x)
  qed
qed

lemma map_of_replace_other:
  "k' \<noteq> k \<Longrightarrow>
   map_of (map (\<lambda>(k'', v'). if k'' = k then (k'', v) else (k'', v')) d) k' = map_of d k'"
proof (induction d)
  case Nil
  then show ?case by simp
next
  case (Cons x d)
  obtain a b where x: "x = (a, b)" by (cases x)
  show ?case using Cons by (cases "a = k") (simp_all add: x)
qed

lemma map_of_dict_set: "map_of (dict_set k v d) k' = (if k' = k then Some v else map_of d k')"
proof (cases "has_key k d")
  case True
  then show ?thesis
    by (cases "k' = k") (simp_all add: dict_set_def map_of_replace_same map_of_replace_other has_key_def)
next
  case False
  then have "map_of d k = None" by (simp add: has_key_def map_of_eq_None_iff)
  then show ?thesis using False by (auto simp: dict_set_def map_add_def split: option.splits)
qed

lemma map_of_dict_update_other:
  "\<not> has_key k b \<Longrightarrow> map_of (dict_update a b) k = map_of a k"
proof (induction b arbitrary: a)
  case Nil
  then show ?case by (simp add: dict_update_def)
next
  case (Cons x b)
  have "\<not> has_key k b" "k \<noteq> fst x" using Cons.prems by (auto simp: has_key_def)
  then show ?case using Cons.IH [of "dict_set (fst x) (snd x) a"]
    by (simp add: map_of_dict_set dict_update_Cons)
qed

subsection \<open>Record keys\<close>

lemma replace_first_keys: "map vr_document_id (replace_first r coll) = map vr_document_id coll"
  by (induction coll) auto

lemma store_embeddings_keys:
  "map vr_document_id (store_embeddings coll r) = add_key (map vr_document_id coll) (vr_document_id r)"
  by (simp add: store_embeddings_def replace_first_keys add_key_def)

lemma foldl_store_keys:
  "map vr_document_id (foldl store_embeddings coll rs) =
     foldl add_key (map vr_document_id coll) (map vr_document_id rs)"
  by (induction rs arbitrary: coll) (simp_all add: store_embeddings_keys)

lemma add_key_present: "k \<in> set ks \<Longrightarrow> add_key ks k = ks"
  by (simp add: add_key_def)

lemma add_key_fresh: "k \<notin> set ks \<Longrightarrow> add_key ks k = ks @ [k]"
  by (simp add: add_key_def)

lemma add_keys_present: "set ks' \<subseteq> set ks \<Longrightarrow> foldl add_key ks ks' = ks"
  by (induction ks') (simp_all add: add_key_present)

lemma add_keys_fresh:
  "distinct ks' \<Longrightarrow> set ks' \<inter> set ks = {} \<Longrightarrow> foldl add_key ks ks' = ks @ ks'"
proof (induction ks' arbitrary: ks)
  case Nil
  then show ?case by simp
next
  case (Cons k ks')
  have "foldl add_key (ks @ [k]) ks' = (ks @ [k]) @ ks'"
    using Cons.prems by (intro Cons.IH) auto
  then show ?case using Cons.prems by (simp add: add_key_fresh)
qed

lemma chunk_records_keys:
  assumes "\<not> has_key ''document_id'' md"
  shows "map vr_document_id (chunk_records env now embedded md) =
           record_keys (py_hash env) (metadata_file_path md) (length embedded)"
proof -
  have "map (vr_document_id \<circ> (\<lambda>(i, chunk). chunk_record now m d i chunk)) (zip [0..<length embedded] embedded) =
        map (\<lambda>i. py_str d @ ''_'' @ str_nat i) [0..<length embedded]" for m d
  proof -
    have "map (vr_document_id \<circ> (\<lambda>(i, chunk). chunk_record now m d i chunk)) (zip [0..<length embedded] embedded) =
          map ((\<lambda>i. py_str d @ ''_'' @ str_nat i) \<circ> fst) (zip [0..<length embedded] embedded)"
      by (rule map_cong) (auto simp: chunk_record_def Let_def)
    also have "\<dots> = map (\<lambda>i. py_str d @ ''_'' @ str_nat i) (map fst (zip [0..<length embedded] embedded))"
      by (simp only: map_map)
    also have "map fst (zip [0..<length embedded] embedded) = [0..<length embedded]"
      by simp
    finally show ?thesis .
  qed
  then show ?thesis using assms
    by (simp add: chunk_records_def record_keys_def Let_def)
qed

lemma save_to_mongodb_keys:
  assumes "\<not> has_key ''document_id'' md"
  shows "map vr_document_id (save_to_mongodb env now coll embedded md) =
           foldl add_key (map vr_document_id coll)
             (record_keys (py_hash env) (metadata_file_path md) (length embedded))"
  using chunk_records_keys [OF assms] by (simp add: save_to_mongodb_def foldl_store_keys)

lemma record_keys_distinct: "distinct (record_keys h v n)"
  by (simp add: record_keys_def distinct_map inj_on_def str_nat_inj)

lemma record_keys_disjoint:
  assumes "h1 v mod 10000000 \<noteq> h2 v mod 10000000"
  shows "set (record_keys h2 v m) \<inter> set (record_keys h1 v n) = {}"
proof -
  have "derive_document_id h1 v \<noteq> derive_document_id h2 v"
    using assms by (simp add: derive_eq_iff)
  moreover have "length (derive_document_id h1 v) = length (derive_document_id h2 v)"
    by (simp add: length_derive)
  ultimately show ?thesis by (auto simp: record_keys_def)
qed

lemma record_keys_same:
  "h1 v mod 10000000 = h2 v mod 10000000 \<Longrightarrow> record_keys h2 v n = record_keys h1 v n"
  using derive_eq_iff [of h1 v h2] by (simp add: record_keys_def)

lemma rerun_keys:
  "foldl add_key (record_keys h1 v n) (record_keys h2 v n) =
     (if h1 v mod 10000000 = h2 v mod 10000000 then record_keys h1 v n
      else record_keys h1 v n @ record_keys h2 v n)"
proof (cases "h1 v mod 10000000 = h2 v mod 10000000")
  case True
  then show ?thesis
    using record_keys_same [of h1 v h2 n] add_keys_present [of "record_keys h1 v n" "record_keys h1 v n"]
    by simp
next
  case False
  then show ?thesis
    using record_keys_disjoint [of h1 v h2 n n]
      add_keys_fresh [OF record_keys_distinct, of h2 v n "record_keys h1 v n"]
    by simp
qed

lemma process_embedding_job_collection:
  assumes staged: "map_of (processed_files w) (chunks_file job) = Some data"
    and nodoc: "\<not> has_key ''document_id'' (embed_metadata job)"
               "\<not> has_key ''document_id'' (staged_metadata data)"
    and enc: "length (staged_chunks data) \<le> length (encode env (staged_chunks data))"
  shows "fst (process_embedding_job env now w job) \<and>
         processed_files (snd (process_embedding_job env now w job)) = processed_files w \<and>
         map vr_document_id (collection (snd (process_embedding_job env now w job))) =
           foldl add_key (map vr_document_id (collection w))
             (record_keys (py_hash env)
                (metadata_file_path
                   (merge_metadata (embed_metadata job) (loaded_metadata (chunks_file job) data)))
                (length (staged_chunks data)))"
proof -
  let ?fm = "loaded_metadata (chunks_file job) data"
  let ?m = "merge_metadata (embed_metadata job) ?fm"
  let ?cm = "dict_set ''embedding_model'' (Str (model_name env)) ?m"
  have "\<not> has_key ''document_id'' ?fm"
    using nodoc by (simp add: loaded_metadata_def has_key_dict_set)
  then have "\<not> has_key ''document_id'' ?m"
    using nodoc by (simp add: merge_metadata_def has_key_dict_update)
  then have nd: "\<not> has_key ''document_id'' ?cm"
    by (simp add: has_key_dict_set)
  have fp: "metadata_file_path ?cm = metadata_file_path ?m"
    by (simp add: metadata_file_path_def map_of_dict_set)
  have emb: "embed_chunks env now (staged_chunks data) ?cm =
               Inr (map (enrich env now ?cm) (zip (staged_chunks data) (encode env (staged_chunks data))))"
    using enc by (simp add: embed_chunks_def Let_def)
  have len: "length (map (enrich env now ?cm) (zip (staged_chunks data) (encode env (staged_chunks data)))) =
             length (staged_chunks data)"
    using enc by simp
  show ?thesis
    using staged emb save_to_mongodb_keys [OF nd, of env now "collection w"
        "map (enrich env now ?cm) (zip (staged_chunks data) (encode env (staged_chunks data)))"]
    by (simp add: process_embedding_job_def load_chunks_file_def Let_def fp len del: length_map)
qed

text \<open>
  C5 (two runs of the embed stage on one file). For a staging file and an embed job whose
  metadata carry no document id, a run of the embed stage on an empty collection writes
  one record per chunk under the keys \<^verbatim>\<open>doc_<hash(file_path) mod 10^7, 7 digits>_<i>\<close>,
  where the hash is the one of the interpreter that runs the worker. A second run on the
  same job leaves the same keys and the same number of records exactly when the hashes
  of the two interpreters agree modulo \<open>10^7\<close> on the file path; when they differ, the
  second run adds a second set of records under other keys and overwrites nothing.
\<close>

theorem embed_twice_record_keys:
  assumes staged: "map_of (processed_files w) (chunks_file job) = Some data"
    and nodoc: "\<not> has_key ''document_id'' (embed_metadata job)"
               "\<not> has_key ''document_id'' (staged_metadata data)"
    and enc1: "length (staged_chunks data) \<le> length (encode env1 (staged_chunks data))"
    and enc2: "length (staged_chunks data) \<le> length (encode env2 (staged_chunks data))"
    and empty: "collection w = []"
  shows "let v = metadata_file_path
                   (merge_metadata (embed_metadata job) (loaded_metadata (chunks_file job) data));
             n = length (staged_chunks data);
             w1 = snd (process_embedding_job env1 now1 w job);
             w2 = snd (process_embedding_job env2 now2 w1 job)
         in fst (process_embedding_job env1 now1 w job) \<and>
            fst (process_embedding_job env2 now2 w1 job) \<and>
            map vr_document_id (collection w1) = record_keys (py_hash env1) v n \<and>
            map vr_document_id (collection w2) =
              (if py_hash env1 v mod 10000000 = py_hash env2 v mod 10000000
               then record_keys (py_hash env1) v n
               else record_keys (py_hash env1) v n @ record_keys (py_hash env2) v n)"
proof -
  let ?v = "metadata_file_path
              (merge_metadata (embed_metadata job) (loaded_metadata (chunks_file job) data))"
  let ?n = "length (staged_chunks data)"
  let ?w1 = "snd (process_embedding_job env1 now1 w job)"
  note r1 = process_embedding_job_collection [OF staged nodoc enc1, of now1]
  have k1: "map vr_document_id (collection ?w1) = record_keys (py_hash env1) ?v ?n"
    using r1 empty add_keys_fresh [OF record_keys_distinct, of "py_hash env1" ?v ?n "[]"] by simp
  have file1: "map_of (processed_files ?w1) (chunks_file job) = Some data"
    using r1 staged by simp
  note r2 = process_embedding_job_collection [OF file1 nodoc enc2, of now2]
  show ?thesis
    using r1 r2 k1 by (simp add: Let_def rerun_keys)
qed

lemma str_nat_digit: "n < 10 \<Longrightarrow> str_nat n = [digit_char n]"
  by (subst str_nat.simps) simp

lemma str_nat_step: "10 \<le> n \<Longrightarrow> str_nat n = str_nat (n div 10) @ [digit_char (n mod 10)]"
  by (subst str_nat.simps) simp

lemma upt_two: "[0..<2] = [0, 1]"
  by (simp add: numeral_2_eq_2)

lemma ex_record_keys_first: "record_keys (\<lambda>v. 1234567) (Str ''/lib/a.pdf'') 2 = [''doc_1234567_0'', ''doc_1234567_1'']"
  by (simp add: record_keys_def derive_document_id_def format_07d_def str_nat_digit str_nat_step
      digit_char_def upt_two)

lemma replicate_five: "replicate 5 c = [c, c, c, c, c]"
  by (simp add: numeral_eq_Suc)

lemma ex_record_keys_second: "record_keys (\<lambda>v. 42) (Str ''/lib/a.pdf'') 2 = [''doc_0000042_0'', ''doc_0000042_1'']"
  by (simp add: record_keys_def derive_document_id_def format_07d_def str_nat_digit str_nat_step
      digit_char_def upt_two replicate_five)

lemma ex_merged_file_path: "metadata_file_path
             (merge_metadata (embed_metadata ex_embed_job)
                (loaded_metadata (chunks_file ex_embed_job) ex_staged)) = Str ''/lib/a.pdf''"
  by (simp add: metadata_file_path_def merge_metadata_def ex_embed_job_def ex_staged_def
      loaded_metadata_def has_key_def dict_update_def dict_set_def)

theorem embed_twice_record_keys_witness:
  "map_of (processed_files ex_staged_world) (chunks_file ex_embed_job) = Some ex_staged \<and>
   \<not> has_key ''document_id'' (embed_metadata ex_embed_job) \<and>
   \<not> has_key ''document_id'' (staged_metadata ex_staged) \<and>
   collection ex_staged_world = [] \<and>
   map vr_document_id
     (collection (snd (process_embedding_job (ex_embedder 42) 31
        (snd (process_embedding_job (ex_embedder 1234567) 30 ex_staged_world ex_embed_job))
        ex_embed_job))) =
     [''doc_1234567_0'', ''doc_1234567_1'', ''doc_0000042_0'', ''doc_0000042_1'']"
proof -
  have h: "map_of (processed_files ex_staged_world) (chunks_file ex_embed_job) = Some ex_staged"
    "\<not> has_key ''document_id'' (embed_metadata ex_embed_job)"
    "\<not> has_key ''document_id'' (staged_metadata ex_staged)"
    "length (staged_chunks ex_staged) \<le> length (encode (ex_embedder 1234567) (staged_chunks ex_staged))"
    "length (staged_chunks ex_staged) \<le> length (encode (ex_embedder 42) (staged_chunks ex_staged))"
    "collection ex_staged_world = []"
    by (simp_all add: ex_staged_world_def ex_embed_job_def ex_staged_def ex_embedder_def has_key_def)
  have n: "length (staged_chunks ex_staged) = 2"
    by (simp add: ex_staged_def)
  have p: "py_hash (ex_embedder 1234567) = (\<lambda>v. 1234567)" "py_hash (ex_embedder 42) = (\<lambda>v. 42)"
    by (simp_all add: ex_embedder_def)
  show ?thesis
    using embed_twice_record_keys [OF h, of 30 31] h
    by (simp add: Let_def ex_merged_file_path n p ex_record_keys_first ex_record_keys_second)
qed

section \<open>Trace identity through the pipeline\<close>

subsection \<open>Metadata keeps its trace id\<close>

lemma dict_set_distinct: "distinct (map fst d) \<Longrightarrow> distinct (map fst (dict_set k v d))"
  using replace_keys [of k v d] by (auto simp: dict_set_def has_key_def simp del: map_map)

lemma dict_update_distinct: "distinct (map fst a) \<Longrightarrow> distinct (map fst (dict_update a b))"
  by (induction b arbitrary: a) (simp_all add: dict_update_Cons dict_set_distinct, simp add: dict_update_def)

lemma map_of_dict_update:
  "distinct (map fst b) \<Longrightarrow>
   map_of (dict_update a b) k = (case map_of b k of None \<Rightarrow> map_of a k | Some v \<Rightarrow> Some v)"
proof (induction b arbitrary: a)
  case Nil
  then show ?case by (simp add: dict_update_def)
next
  case (Cons x b)
  obtain k' v' where x: "x = (k', v')" by (cases x)
  have nk: "map_of b k' = None" using Cons.prems by (simp add: x map_of_eq_None_iff)
  have d: "distinct (map fst b)" using Cons.prems by simp
  show ?case
    using Cons.IH [OF d, of "dict_set k' v' a"] nk
    by (cases "k = k'") (simp_all add: dict_update_Cons x map_of_dict_set split: option.splits)
qed

lemma copy_key_other: "k \<noteq> k' \<Longrightarrow> map_of (copy_key src m k') k = map_of m k"
  by (simp add: copy_key_def map_of_dict_set split: option.splits)

lemma copy_keys_other:
  "k \<notin> set ks \<Longrightarrow> map_of (foldl (copy_key src) m ks) k = map_of m k"
  by (induction ks arbitrary: m) (simp_all add: copy_key_other)

lemma copy_key_distinct: "distinct (map fst m) \<Longrightarrow> distinct (map fst (copy_key src m k))"
  by (simp add: copy_key_def dict_set_distinct split: option.splits)

lemma copy_keys_distinct:
  "distinct (map fst m) \<Longrightarrow> distinct (map fst (foldl (copy_key src) m ks))"
  by (induction ks arbitrary: m) (simp_all add: copy_key_distinct)

lemma has_key_copy_key: "has_key k m \<Longrightarrow> has_key k (copy_key src m k')"
  by (simp add: copy_key_def has_key_dict_set split: option.splits)

lemma has_key_copy_keys: "has_key k m \<Longrightarrow> has_key k (foldl (copy_key src) m ks)"
  by (induction ks arbitrary: m) (simp_all add: has_key_copy_key)

lemma has_key_nonempty: "has_key k d \<Longrightarrow> d \<noteq> []"
  by (auto simp: has_key_def)

lemma extract_metadata_trace:
  assumes "tid \<noteq> []"
  shows "map_of (extract_metadata d fp tid now sz) ''trace_id'' = Some (Str tid) \<and>
         has_key ''file_path'' (extract_metadata d fp tid now sz) \<and>
         distinct (map fst (extract_metadata d fp tid now sz))"
proof -
  let ?m0 = "[(''file_path'', Str fp), (''file_name'', Str (basename fp)),
              (''file_type'', Str (drop 1 (snd (splitext fp)))),
              (''extraction_date'', Num now), (''file_size'', Num sz)]"
  let ?m1 = "dict_set ''trace_id'' (Str tid) ?m0"
  let ?m2 = "foldl (copy_key (doc_metadata d)) ?m1 document_meta_keys"
  have d0: "distinct (map fst ?m0)" by simp
  have t1: "map_of ?m1 ''trace_id'' = Some (Str tid)" by (simp add: map_of_dict_set)
  have t2: "map_of ?m2 ''trace_id'' = Some (Str tid)"
    using copy_keys_other [of "''trace_id''" document_meta_keys "doc_metadata d" ?m1] t1
    by (simp add: document_meta_keys_def)
  have f2: "has_key ''file_path'' ?m2"
    by (rule has_key_copy_keys) (simp add: has_key_dict_set, simp add: has_key_def)
  have d2: "distinct (map fst ?m2)"
    by (rule copy_keys_distinct, rule dict_set_distinct, rule d0)
  have e: "extract_metadata d fp tid now sz =
             (if meta_falsy (map_of ?m2 ''title'')
              then dict_set ''title'' (Str (fst (splitext (basename fp)))) ?m2 else ?m2)"
    using assms by (simp add: extract_metadata_def Let_def)
  have "map_of (extract_metadata d fp tid now sz) ''trace_id'' = Some (Str tid)"
    unfolding e using t2 by (simp add: map_of_dict_set)
  moreover have "has_key ''file_path'' (extract_metadata d fp tid now sz)"
    unfolding e using f2 by (simp add: has_key_dict_set)
  moreover have "distinct (map fst (extract_metadata d fp tid now sz))"
    unfolding e using d2 by (simp add: dict_set_distinct)
  ultimately show ?thesis by blast
qed

lemma chunk_document_trace:
  assumes "map_of md ''trace_id'' = Some v" and "has_key ''file_path'' md"
    and "distinct (map fst md)"
  shows "map_of (snd (chunk_document cenv now doc fp md)) ''trace_id'' = Some v \<and>
         has_key ''file_path'' (snd (chunk_document cenv now doc fp md)) \<and>
         distinct (map fst (snd (chunk_document cenv now doc fp md))) \<and>
         fst (chunk_document cenv now doc fp md) = chunker cenv doc"
proof -
  have ne: "md \<noteq> []" using assms(2) by (rule has_key_nonempty)
  have nt: "\<not> has_key ''trace_id''
              [(''chunks_count'', Num n), (''chunking_timestamp'', Num now), (''chunking_time'', Num now)]" for n
    by (simp add: has_key_def)
  have "map_of (snd (chunk_document cenv now doc fp md)) ''trace_id'' = Some v"
    using assms(1) ne nt by (simp add: chunk_document_def Let_def map_of_dict_update_other)
  moreover have "has_key ''file_path'' (snd (chunk_document cenv now doc fp md))"
    using assms(2) ne by (simp add: chunk_document_def Let_def has_key_dict_update)
  moreover have "distinct (map fst (snd (chunk_document cenv now doc fp md)))"
    using assms(3) ne by (simp add: chunk_document_def Let_def dict_update_distinct)
  moreover have "fst (chunk_document cenv now doc fp md) = chunker cenv doc"
    by (simp add: chunk_document_def Let_def)
  ultimately show ?thesis by blast
qed

subsection \<open>Records written to the vector store\<close>

lemma chunk_records_trace:
  assumes "map_of md ''trace_id'' = Some v" and "r \<in> set (chunk_records env now embedded md)"
  shows "map_of (vr_metadata r) ''trace_id'' = Some v"
proof -
  have nt: "\<not> has_key ''trace_id'' [(''chunk_index'', Num i), (''document_id'', d)]" for i d
    by (simp add: has_key_def)
  have "map_of (vr_metadata (chunk_record now m d i c)) ''trace_id'' = map_of m ''trace_id''" for m d i c
    using nt by (simp add: chunk_record_def Let_def map_of_dict_update_other)
  moreover have "map_of (dict_set ''document_id'' d md) ''trace_id'' = Some v" for d
    using assms(1) by (simp add: map_of_dict_set)
  ultimately show ?thesis
    using assms by (auto simp: chunk_records_def Let_def split: if_splits)
qed

lemma length_chunk_records: "length (chunk_records env now embedded md) = length embedded"
  by (simp add: chunk_records_def Let_def)

lemma zip_upt_map:
  "map (f \<circ> (\<lambda>(i, c). g i c)) (zip [0..<length xs] xs) = map h [0..<length xs]"
  if "\<And>i c. f (g i c) = h i"
proof -
  have "map (f \<circ> (\<lambda>(i, c). g i c)) (zip [0..<length xs] xs) = map (h \<circ> fst) (zip [0..<length xs] xs)"
    by (rule map_cong) (auto simp: that)
  also have "\<dots> = map h (map fst (zip [0..<length xs] xs))"
    by (simp only: map_map)
  also have "map fst (zip [0..<length xs] xs) = [0..<length xs]"
    by simp
  finally show ?thesis .
qed

lemma chunk_records_distinct: "distinct (map vr_document_id (chunk_records env now embedded md))"
proof -
  have k: "vr_document_id (chunk_record now m d i c) = py_str d @ ''_'' @ str_nat i" for m d i c
    by (simp add: chunk_record_def Let_def)
  have "map (vr_document_id \<circ> (\<lambda>(i, c). chunk_record now m d i c)) (zip [0..<length embedded] embedded) =
        map (\<lambda>i. py_str d @ ''_'' @ str_nat i) [0..<length embedded]" for m d
    by (rule zip_upt_map) (rule k)
  moreover have "distinct (map (\<lambda>i. py_str d @ ''_'' @ str_nat i) [0..<n])" for d n
    by (simp add: distinct_map inj_on_def str_nat_inj)
  ultimately show ?thesis
    by (simp add: chunk_records_def Let_def)
qed

lemma replace_first_mem:
  "vr_document_id r \<in> set (map vr_document_id coll) \<Longrightarrow> r \<in> set (replace_first r coll)"
  by (induction coll) auto

lemma replace_first_keeps:
  "x \<in> set coll \<Longrightarrow> vr_document_id x \<noteq> vr_document_id r \<Longrightarrow> x \<in> set (replace_first r coll)"
  by (induction coll) auto

lemma store_embeddings_mem: "r \<in> set (store_embeddings coll r)"
  by (simp add: store_embeddings_def replace_first_mem)

lemma store_embeddings_keeps:
  "x \<in> set coll \<Longrightarrow> vr_document_id x \<noteq> vr_document_id r \<Longrightarrow> x \<in> set (store_embeddings coll r)"
  by (simp add: store_embeddings_def replace_first_keeps)

lemma written_records_stored:
  "distinct (map vr_document_id rs) \<Longrightarrow> set rs \<subseteq> set (foldl store_embeddings coll rs)"
proof (induction rs rule: rev_induct)
  case Nil
  then show ?case by simp
next
  case (snoc r rs)
  have d: "distinct (map vr_document_id rs)" using snoc.prems by simp
  have other: "x \<in> set (store_embeddings (foldl store_embeddings coll rs) r)" if "x \<in> set rs" for x
  proof -
    have "x \<in> set (foldl store_embeddings coll rs)" using snoc.IH [OF d] that by blast
    moreover have "vr_document_id r \<notin> vr_document_id ` set rs" using snoc.prems by simp
    then have "vr_document_id x \<noteq> vr_document_id r" using that by (metis imageI)
    ultimately show ?thesis by (rule store_embeddings_keeps)
  qed
  show ?case using other store_embeddings_mem [of r "foldl store_embeddings coll rs"] by auto
qed

subsection \<open>The status store keeps trace ids\<close>

lemma update_keeps_trace_ids:
  "map (\<lambda>r. (filename r, trace_id r)) (rows (snd (update_document_status eng now t fp st em))) =
   map (\<lambda>r. (filename r, trace_id r)) (rows t)"
  by (cases eng) (simp_all add: update_document_status_def update_row_def comp_def)

lemma add_keeps_rows:
  "take (length (rows t)) (rows (snd (add_document eng now t fn fp st tid))) = rows t"
  by (cases eng) (simp_all add: add_document_def)

lemma trace_ids_of_filename:
  fixes rs rs' :: "document list"
  assumes "map (\<lambda>r. (filename r, trace_id r)) rs = map (\<lambda>r. (filename r, trace_id r)) rs'"
  shows "map trace_id (filter (\<lambda>r. filename r = fn) rs) =
         map trace_id (filter (\<lambda>r. filename r = fn) rs')"
proof -
  have eq: "map trace_id (filter (\<lambda>r. filename r = fn) xs) =
        map snd (filter (\<lambda>p. fst p = fn) (map (\<lambda>r. (filename r, trace_id r)) xs))"
    for xs :: "document list"
    by (induction xs) auto
  have "map trace_id (filter (\<lambda>r. filename r = fn) rs) =
        map snd (filter (\<lambda>p. fst p = fn) (map (\<lambda>r. (filename r, trace_id r)) rs))"
    by (rule eq)
  also have "\<dots> = map snd (filter (\<lambda>p. fst p = fn) (map (\<lambda>r. (filename r, trace_id r)) rs'))"
    by (simp only: assms)
  also have "\<dots> = map trace_id (filter (\<lambda>r. filename r = fn) rs')"
    by (rule eq [symmetric])
  finally show ?thesis .
qed

subsection \<open>One loop iteration of each worker\<close>

lemma extraction_stage:
  assumes "extraction_jobs w1 = rpush q j"
    and "convert xenv (job_file_path j) = Converted d"
    and "getsize xenv (job_file_path j) = Inr sz"
  shows "redis_queue (process_extraction_queue xenv wid [t2] w1) =
           rpush (redis_queue w1) (chunk_payload t2 wid j d sz) \<and>
         extraction_jobs (process_extraction_queue xenv wid [t2] w1) = q \<and>
         embedding_queue (process_extraction_queue xenv wid [t2] w1) = embedding_queue w1 \<and>
         processed_files (process_extraction_queue xenv wid [t2] w1) = processed_files w1 \<and>
         collection (process_extraction_queue xenv wid [t2] w1) = collection w1 \<and>
         map (\<lambda>r. (filename r, trace_id r))
           (rows (documents (process_extraction_queue xenv wid [t2] w1))) =
         map (\<lambda>r. (filename r, trace_id r)) (rows (documents w1))"
  using assms
  by (simp add: brpop_rpush process_extraction_job_def job_completed_def db_update_status_def
      release_lock_def Let_def update_keeps_trace_ids)

lemma chunking_stage:
  assumes "redis_queue w2 = rpush q c"
    and "(if document_json c = [] then convert_markdown cenv (markdown_output c)
          else model_validate cenv (document_json c)) = Inr doc"
  shows "embedding_queue (process_chunking_queue cenv [t3] w2) =
           rpush (embedding_queue w2)
             \<lparr>chunks_file = path_join (processed_dir cenv) (basename (chunk_file_path c) @ ''_chunks.json''),
              embed_metadata = snd (chunk_document cenv t3 doc (chunk_file_path c) (chunk_metadata c))\<rparr> \<and>
         map_of (processed_files (process_chunking_queue cenv [t3] w2))
           (path_join (processed_dir cenv) (basename (chunk_file_path c) @ ''_chunks.json'')) =
           Some \<lparr>staged_chunks = fst (chunk_document cenv t3 doc (chunk_file_path c) (chunk_metadata c)),
                 staged_metadata = snd (chunk_document cenv t3 doc (chunk_file_path c) (chunk_metadata c))\<rparr> \<and>
         redis_queue (process_chunking_queue cenv [t3] w2) = q \<and>
         documents (process_chunking_queue cenv [t3] w2) = documents w2 \<and>
         collection (process_chunking_queue cenv [t3] w2) = collection w2"
  using assms
  by (simp add: brpop_rpush process_chunking_job_def save_chunks_def add_to_embedding_queue_def
      Let_def map_of_dict_set split: prod.splits)

lemma embedding_stage:
  assumes "embedding_queue w3 = rpush q ej"
    and "map_of (processed_files w3) (chunks_file ej) = Some sf"
    and "length (staged_chunks sf) \<le> length (encode benv (staged_chunks sf))"
  shows "collection (process_embedding_queue benv [t4] w3) =
           foldl store_embeddings (collection w3)
             (chunk_records benv t4
                (map (enrich benv t4
                        (dict_set ''embedding_model'' (Str (model_name benv))
                           (merge_metadata (embed_metadata ej) (loaded_metadata (chunks_file ej) sf))))
                   (zip (staged_chunks sf) (encode benv (staged_chunks sf))))
                (dict_set ''embedding_model'' (Str (model_name benv))
                   (merge_metadata (embed_metadata ej) (loaded_metadata (chunks_file ej) sf)))) \<and>
         embedding_queue (process_embedding_queue benv [t4] w3) = q \<and>
         documents (process_embedding_queue benv [t4] w3) = documents w3 \<and>
         processed_files (process_embedding_queue benv [t4] w3) = processed_files w3"
  using assms
  by (simp add: brpop_rpush process_embedding_job_def load_chunks_file_def embed_chunks_def
      save_to_mongodb_def Let_def)

lemma merged_trace:
  assumes "map_of md ''trace_id'' = Some v" and "distinct (map fst md)"
  shows "map_of (dict_set ''embedding_model'' x (merge_metadata md fm)) ''trace_id'' = Some v"
proof -
  have "md \<noteq> []" using assms(1) by auto
  then have "map_of (merge_metadata md fm) ''trace_id'' = Some v"
    using assms by (simp add: merge_metadata_def map_of_dict_update)
  then show ?thesis by (simp add: map_of_dict_set)
qed


lemma no_row_of_filename:
  "\<not> filename_taken t fn \<Longrightarrow> filter (\<lambda>r. filename r = fn) (rows t) = []"
  by (auto simp: filename_taken_def filter_empty_conv)

text \<open>
  C4, amended. Take a file whose filename has no status record, a trace id that is not
  empty, and a run in which the manager dispatches the file and an extract worker, a chunk
  worker and an embed worker then make one loop iteration each, all of them succeeding.
  Then the status record of the file carries the trace id of the dispatch, and so do the
  extract job pushed by the manager, the chunk job pushed by the extract worker (in its
  field and in its metadata), the embed job and the staging file written by the chunk
  worker, and every record that the embed worker writes to the vector store, all of which
  are in the collection afterwards. A trace id once recorded never changes: an update
  leaves the filename and trace id of every record as they were, and an add leaves the
  existing records as they were. When the manager dispatches a file whose filename already
  has a record, the records stay as they are while the new extract job carries the trace
  id of the new dispatch.
\<close>

theorem trace_continuity:
  assumes tid: "tid \<noteq> []"
    and fresh: "\<not> filename_taken (documents w) fn"
    and engine: "manager_sqlite e = Executed"
    and conv: "convert xenv fp = Converted d"
    and size: "getsize xenv fp = Inr sz"
    and load: "(if export_to_dict d = [] then convert_markdown cenv (export_to_markdown d)
                else model_validate cenv (export_to_dict d)) = Inr doc"
    and enc: "length (chunker cenv doc) \<le> length (encode benv (chunker cenv doc))"
  shows "(let w1 = create_extraction_job e t1 w fp fn tid;
              w2 = process_extraction_queue xenv wid [t2] w1;
              w3 = process_chunking_queue cenv [t3] w2;
              w4 = process_embedding_queue benv [t4] w3;
              staged = path_join (processed_dir cenv) (basename fp @ ''_chunks.json'')
          in map trace_id (filter (\<lambda>r. filename r = fn) (rows (documents w4))) = [Some tid] \<and>
             map job_trace_id (extraction_jobs w1) = map job_trace_id (extraction_jobs w) @ [tid] \<and>
             map chunk_trace_id (redis_queue w2) = map chunk_trace_id (redis_queue w) @ [tid] \<and>
             map (\<lambda>c. map_of (chunk_metadata c) ''trace_id'') (redis_queue w2) =
               map (\<lambda>c. map_of (chunk_metadata c) ''trace_id'') (redis_queue w) @ [Some (Str tid)] \<and>
             map (\<lambda>j. map_of (embed_metadata j) ''trace_id'') (embedding_queue w3) =
               map (\<lambda>j. map_of (embed_metadata j) ''trace_id'') (embedding_queue w) @ [Some (Str tid)] \<and>
             map_option (\<lambda>f. map_of (staged_metadata f) ''trace_id'')
               (map_of (processed_files w3) staged) = Some (Some (Str tid)) \<and>
             (\<exists>rs. collection w4 = foldl store_embeddings (collection w) rs \<and>
                   length rs = length (chunker cenv doc) \<and>
                   set rs \<subseteq> set (collection w4) \<and>
                   (\<forall>r \<in> set rs. map_of (vr_metadata r) ''trace_id'' = Some (Str tid)))) \<and>
         map (\<lambda>r. (filename r, trace_id r))
           (rows (snd (update_document_status eng now t fp' st em))) =
           map (\<lambda>r. (filename r, trace_id r)) (rows t) \<and>
         take (length (rows t)) (rows (snd (add_document eng now t fn' fp' st' tid'))) = rows t \<and>
         (filename_taken (documents w0) fn0 \<longrightarrow>
            rows (documents (create_extraction_job e now w0 fp0 fn0 tid0)) = rows (documents w0) \<and>
            job_trace_id (last (extraction_jobs (create_extraction_job e now w0 fp0 fn0 tid0))) = tid0)"
proof -
  note process_extraction_queue.simps [simp del] process_chunking_queue.simps [simp del]
    process_embedding_queue.simps [simp del]
  let ?j = "job_of t1 fp fn tid"
  let ?c = "chunk_payload t2 wid ?j d sz"
  let ?staged = "path_join (processed_dir cenv) (basename fp @ ''_chunks.json'')"
  let ?pm = "snd (chunk_document cenv t3 doc fp (chunk_metadata ?c))"
  let ?ej = "\<lparr>chunks_file = ?staged, embed_metadata = ?pm\<rparr>"
  let ?sf = "\<lparr>staged_chunks = fst (chunk_document cenv t3 doc fp (chunk_metadata ?c)),
              staged_metadata = ?pm\<rparr>"
  let ?w1 = "create_extraction_job e t1 w fp fn tid"
  let ?w2 = "process_extraction_queue xenv wid [t2] ?w1"
  let ?w3 = "process_chunking_queue cenv [t3] ?w2"
  let ?w4 = "process_embedding_queue benv [t4] ?w3"
  let ?cm = "dict_set ''embedding_model'' (Str (model_name benv))
               (merge_metadata ?pm (loaded_metadata ?staged ?sf))"
  let ?emb = "map (enrich benv t4 ?cm) (zip (staged_chunks ?sf) (encode benv (staged_chunks ?sf)))"
  let ?rs = "chunk_records benv t4 ?emb ?cm"

  have jf: "job_file_path ?j = fp" "job_trace_id ?j = tid" by (simp_all add: job_of_def)
  have cf: "chunk_file_path ?c = fp" "chunk_trace_id ?c = tid"
    "document_json ?c = export_to_dict d" "markdown_output ?c = export_to_markdown d"
    "chunk_metadata ?c = extract_metadata d fp tid t2 sz"
    by (simp_all add: chunk_payload_def job_of_def)

  \<comment> \<open>the manager\<close>
  have q1: "extraction_jobs ?w1 = rpush (extraction_jobs w) ?j"
    by (rule create_extraction_job_queue)
  have o1: "redis_queue ?w1 = redis_queue w" "embedding_queue ?w1 = embedding_queue w"
    "processed_files ?w1 = processed_files w" "collection ?w1 = collection w"
    by (simp_all add: create_extraction_job_def Let_def)
  have d1: "rows (documents ?w1) =
              rows (documents w) @
                [\<lparr>row_id = next_row_id (documents w), filename = fn, filepath = fp,
                  status = ''queued'', trace_id = Some tid, error_message = None,
                  processed_date = None, created_date = t1\<rparr>]"
    using fresh engine by (simp add: create_extraction_job_def Let_def add_document_def)

  \<comment> \<open>the extract worker\<close>
  note s2 = extraction_stage [OF q1, of xenv d sz wid t2, unfolded jf, OF conv size]
  have q2: "redis_queue ?w2 = rpush (redis_queue w) ?c" using s2 o1 by simp

  \<comment> \<open>the chunk worker\<close>
  have load': "(if document_json ?c = [] then convert_markdown cenv (markdown_output ?c)
                else model_validate cenv (document_json ?c)) = Inr doc"
    using load by (simp only: cf)
  note s3 = chunking_stage [OF q2 load', of t3, unfolded cf(1)]
  have q3: "embedding_queue ?w3 = rpush (embedding_queue w) ?ej" using s3 s2 o1 by simp
  have f3: "map_of (processed_files ?w3) (chunks_file ?ej) = Some ?sf" using s3 by simp

  \<comment> \<open>the embed worker\<close>
  have chunks: "staged_chunks ?sf = chunker cenv doc"
    by (simp add: chunk_document_def Let_def)
  have enc': "length (staged_chunks ?sf) \<le> length (encode benv (staged_chunks ?sf))"
    using enc by (simp only: chunks)
  note s4 = embedding_stage [OF q3 f3 enc', of t4]
  have c4: "collection ?w4 = foldl store_embeddings (collection w) ?rs"
    using s4 s3 s2 o1 by simp

  \<comment> \<open>the trace id in the metadata\<close>
  note m2 = extract_metadata_trace [OF tid, of d fp t2 sz]
  have m3: "map_of ?pm ''trace_id'' = Some (Str tid)" "distinct (map fst ?pm)"
    using chunk_document_trace [of "chunk_metadata ?c" "Str tid" cenv t3 doc fp] m2
    by (simp_all add: cf(5))
  have m4: "map_of ?cm ''trace_id'' = Some (Str tid)"
    using merged_trace [OF m3] by simp

  have records: "length ?rs = length (chunker cenv doc)" "set ?rs \<subseteq> set (collection ?w4)"
    "\<forall>r \<in> set ?rs. map_of (vr_metadata r) ''trace_id'' = Some (Str tid)"
  proof -
    show "length ?rs = length (chunker cenv doc)"
      using enc by (simp add: length_chunk_records chunks del: staging_file.simps)
    show "set ?rs \<subseteq> set (collection ?w4)"
      unfolding c4 by (rule written_records_stored) (rule chunk_records_distinct)
    show "\<forall>r \<in> set ?rs. map_of (vr_metadata r) ''trace_id'' = Some (Str tid)"
      using chunk_records_trace [OF m4] by blast
  qed

  \<comment> \<open>the status record\<close>
  have "map (\<lambda>r. (filename r, trace_id r)) (rows (documents ?w4)) =
        map (\<lambda>r. (filename r, trace_id r)) (rows (documents ?w1))"
    using s4 s3 s2 by simp
  then have "map trace_id (filter (\<lambda>r. filename r = fn) (rows (documents ?w4))) =
             map trace_id (filter (\<lambda>r. filename r = fn) (rows (documents ?w1)))"
    by (rule trace_ids_of_filename)
  then have st: "map trace_id (filter (\<lambda>r. filename r = fn) (rows (documents ?w4))) = [Some tid]"
    using no_row_of_filename [OF fresh] by (simp add: d1)

  have run: "map trace_id (filter (\<lambda>r. filename r = fn) (rows (documents ?w4))) = [Some tid] \<and>
             map job_trace_id (extraction_jobs ?w1) = map job_trace_id (extraction_jobs w) @ [tid] \<and>
             map chunk_trace_id (redis_queue ?w2) = map chunk_trace_id (redis_queue w) @ [tid] \<and>
             map (\<lambda>c. map_of (chunk_metadata c) ''trace_id'') (redis_queue ?w2) =
               map (\<lambda>c. map_of (chunk_metadata c) ''trace_id'') (redis_queue w) @ [Some (Str tid)] \<and>
             map (\<lambda>j. map_of (embed_metadata j) ''trace_id'') (embedding_queue ?w3) =
               map (\<lambda>j. map_of (embed_metadata j) ''trace_id'') (embedding_queue w) @ [Some (Str tid)] \<and>
             map_option (\<lambda>f. map_of (staged_metadata f) ''trace_id'')
               (map_of (processed_files ?w3) ?staged) = Some (Some (Str tid)) \<and>
             (\<exists>rs. collection ?w4 = foldl store_embeddings (collection w) rs \<and>
                   length rs = length (chunker cenv doc) \<and>
                   set rs \<subseteq> set (collection ?w4) \<and>
                   (\<forall>r \<in> set rs. map_of (vr_metadata r) ''trace_id'' = Some (Str tid)))"
  proof (intro conjI)
    show "map trace_id (filter (\<lambda>r. filename r = fn) (rows (documents ?w4))) = [Some tid]"
      by (rule st)
    show "map job_trace_id (extraction_jobs ?w1) = map job_trace_id (extraction_jobs w) @ [tid]"
      by (simp add: q1 rpush_def jf)
    show "map chunk_trace_id (redis_queue ?w2) = map chunk_trace_id (redis_queue w) @ [tid]"
      by (simp add: q2 rpush_def cf(2))
    show "map (\<lambda>c. map_of (chunk_metadata c) ''trace_id'') (redis_queue ?w2) =
            map (\<lambda>c. map_of (chunk_metadata c) ''trace_id'') (redis_queue w) @ [Some (Str tid)]"
      using m2 by (simp add: q2 rpush_def cf(5))
    show "map (\<lambda>j. map_of (embed_metadata j) ''trace_id'') (embedding_queue ?w3) =
            map (\<lambda>j. map_of (embed_metadata j) ''trace_id'') (embedding_queue w) @ [Some (Str tid)]"
      using m3(1) by (simp add: q3 rpush_def)
    show "map_option (\<lambda>f. map_of (staged_metadata f) ''trace_id'')
            (map_of (processed_files ?w3) ?staged) = Some (Some (Str tid))"
      using f3 m3(1) by simp
    show "\<exists>rs. collection ?w4 = foldl store_embeddings (collection w) rs \<and>
               length rs = length (chunker cenv doc) \<and>
               set rs \<subseteq> set (collection ?w4) \<and>
               (\<forall>r \<in> set rs. map_of (vr_metadata r) ''trace_id'' = Some (Str tid))"
      using c4 records by blast
  qed

  have again: "filename_taken (documents w0) fn0 \<longrightarrow>
            rows (documents (create_extraction_job e now w0 fp0 fn0 tid0)) = rows (documents w0) \<and>
            job_trace_id (last (extraction_jobs (create_extraction_job e now w0 fp0 fn0 tid0))) = tid0"
    by (cases "manager_sqlite e")
       (simp_all add: create_extraction_job_def Let_def add_document_def rpush_def)

  show ?thesis
    using run again update_keeps_trace_ids [of eng now t fp' st em]
      add_keeps_rows [of t eng now fn' fp' st' tid']
    by (simp only: Let_def)
qed

text \<open>
  C4, as stated, fails for a file that is dispatched a second time. The file of
  \<open>ex_world\<close> has a record with trace id t1 and status error. The next scan dispatches it
  with a freshly generated trace id; the insert of the record is ignored, so the record
  keeps t1. After the extract worker has processed the job the document is processed, its
  record still carries t1, and the extract job and the chunk job carry the new trace id.
\<close>

theorem redispatch_changes_trace_id:
  "map (\<lambda>r. (filename r, status r, trace_id r))
     (rows (documents (process_extraction_queue ex_converts ''extraction-worker-0'' [20]
        (fst (scan_master_library ex_manager 10 (Some [''a.pdf'']) ex_world))))) =
     [(''a.pdf'', ''processed'', Some ''t1'')] \<and>
   map job_trace_id
     (extraction_jobs (fst (scan_master_library ex_manager 10 (Some [''a.pdf'']) ex_world))) =
     [''trace-1''] \<and>
   map chunk_trace_id
     (redis_queue (process_extraction_queue ex_converts ''extraction-worker-0'' [20]
        (fst (scan_master_library ex_manager 10 (Some [''a.pdf'']) ex_world)))) =
     [''trace-1'']"
  by (simp add: scan_master_library_def ex_manager_def ex_world_def ex_table_def endswith_def
      path_join_def is_file_processed_def get_document_status_def is_file_locked_def
      redis_exists_def claim_file_def redis_set_nx_ex_def create_extraction_job_def
      add_document_def filename_taken_def rpush_def brpop_def manager_id_def lock_key_def Let_def
      ex_converts_def process_extraction_job_def job_completed_def db_update_status_def
      release_lock_def update_document_status_def update_row_def chunk_payload_def)

theorem trace_continuity_witness:
  "''trace-0'' \<noteq> [] \<and>
   \<not> filename_taken (documents ex_fresh_world) ''a.pdf'' \<and>
   manager_sqlite ex_manager = Executed \<and>
   convert ex_converts ''/lib/a.pdf'' = Converted ex_document \<and>
   getsize ex_converts ''/lib/a.pdf'' = Inr 1024 \<and>
   length (chunker ex_chunker ex_document) \<le> length (encode (ex_embedder 42) (chunker ex_chunker ex_document)) \<and>
   (let w1 = create_extraction_job ex_manager 10 ex_fresh_world ''/lib/a.pdf'' ''a.pdf'' ''trace-0'';
        w2 = process_extraction_queue ex_converts ''extraction-worker-0'' [20] w1;
        w3 = process_chunking_queue ex_chunker [30] w2;
        w4 = process_embedding_queue (ex_embedder 42) [40] w3;
        staged = path_join (processed_dir ex_chunker) (basename ''/lib/a.pdf'' @ ''_chunks.json'')
    in map trace_id (filter (\<lambda>r. filename r = ''a.pdf'') (rows (documents w4))) = [Some ''trace-0''] \<and>
       map job_trace_id (extraction_jobs w1) =
         map job_trace_id (extraction_jobs ex_fresh_world) @ [''trace-0''] \<and>
       map chunk_trace_id (redis_queue w2) =
         map chunk_trace_id (redis_queue ex_fresh_world) @ [''trace-0''] \<and>
       map (\<lambda>c. map_of (chunk_metadata c) ''trace_id'') (redis_queue w2) =
         map (\<lambda>c. map_of (chunk_metadata c) ''trace_id'') (redis_queue ex_fresh_world) @
           [Some (Str ''trace-0'')] \<and>
       map (\<lambda>j. map_of (embed_metadata j) ''trace_id'') (embedding_queue w3) =
         map (\<lambda>j. map_of (embed_metadata j) ''trace_id'') (embedding_queue ex_fresh_world) @
           [Some (Str ''trace-0'')] \<and>
       map_option (\<lambda>f. map_of (staged_metadata f) ''trace_id'')
         (map_of (processed_files w3) staged) = Some (Some (Str ''trace-0'')) \<and>
       (\<exists>rs. collection w4 = foldl store_embeddings (collection ex_fresh_world) rs \<and>
             length rs = length (chunker ex_chunker ex_document) \<and>
             set rs \<subseteq> set (collection w4) \<and>
             (\<forall>r \<in> set rs. map_of (vr_metadata r) ''trace_id'' = Some (Str ''trace-0''))))"
proof -
  have h1: "''trace-0'' \<noteq> []" by simp
  have h2: "\<not> filename_taken (documents ex_fresh_world) ''a.pdf''"
    by (simp add: ex_fresh_world_def create_tables_def filename_taken_def)
  have h3: "manager_sqlite ex_manager = Executed" by (simp add: ex_manager_def)
  have h4: "convert ex_converts ''/lib/a.pdf'' = Converted ex_document"
    by (simp add: ex_converts_def)
  have h5: "getsize ex_converts ''/lib/a.pdf'' = Inr 1024" by (simp add: ex_converts_def)
  have h6: "(if export_to_dict ex_document = []
             then convert_markdown ex_chunker (export_to_markdown ex_document)
             else model_validate ex_chunker (export_to_dict ex_document)) = Inr ex_document"
    by (simp add: ex_chunker_def)
  have h7: "length (chunker ex_chunker ex_document) \<le>
            length (encode (ex_embedder 42) (chunker ex_chunker ex_document))"
    by (simp add: ex_embedder_def)
  note th = trace_continuity [OF h1 h2 h3 h4 h5 h6 h7, THEN conjunct1]
  show ?thesis
    by (intro conjI h1 h2 h3 h4 h5 h7) (rule th)
qed

section \<open>Properties of the supervisor\<close>

lemma map_of_dict_del: "map_of (dict_del k d) k' = (if k' = k then None else map_of d k')"
  by (induction d) (auto simp: dict_del_def)

lemma start_component_table:
  "map_of (processes (snd (start_component popen_ok (s\<lparr>processes := dict_del key (processes s)\<rparr>)
       name command wid))) k =
     (if k = process_key name wid \<and> popen_ok (attempts s)
      then Some \<lparr>proc_name = name, proc_worker_id = wid, proc_command = command,
                 proc_handle = attempts s\<rparr>
      else if k = key then None
      else map_of (processes s) k)"
  by (simp add: start_component_def Let_def map_of_dict_set map_of_dict_del)

lemma start_component_attempts:
  "attempts (snd (start_component popen_ok s name command wid)) = Suc (attempts s)"
  by (simp add: start_component_def Let_def)

lemma monitor_pass_attempts: "attempts s \<le> attempts (monitor_pass popen_ok poll snapshot s)"
proof (induction snapshot arbitrary: s)
  case Nil
  then show ?case by simp
next
  case (Cons x snapshot)
  obtain key info where x: "x = (key, info)" by (cases x)
  show ?case
  proof (cases "poll (proc_handle info) \<noteq> None \<and> proc_name info \<noteq> ''redis''")
    case True
    let ?s1 = "snd (start_component popen_ok (s\<lparr>processes := dict_del key (processes s)\<rparr>)
                  (proc_name info) (proc_command info) (proc_worker_id info))"
    have "monitor_pass popen_ok poll (x # snapshot) s = monitor_pass popen_ok poll snapshot ?s1"
      using True by (auto simp: x)
    moreover have "attempts ?s1 = Suc (attempts s)" by (simp add: start_component_attempts)
    ultimately show ?thesis using Cons [of ?s1] by simp
  next
    case False
    then have "monitor_pass popen_ok poll (x # snapshot) s = monitor_pass popen_ok poll snapshot s"
      by (auto simp: x split: option.splits)
    then show ?thesis using Cons [of s] by simp
  qed
qed

lemma monitor_pass_table:
  assumes "well_keyed snapshot"
  shows "case map_of snapshot k of
           None \<Rightarrow> map_of (processes (monitor_pass popen_ok poll snapshot s)) k = map_of (processes s) k
         | Some info \<Rightarrow>
             if poll (proc_handle info) \<noteq> None \<and> proc_name info \<noteq> ''redis''
             then \<exists>h. attempts s \<le> h \<and> h < attempts (monitor_pass popen_ok poll snapshot s) \<and>
                      map_of (processes (monitor_pass popen_ok poll snapshot s)) k =
                        (if popen_ok h then Some (info\<lparr>proc_handle := h\<rparr>) else None)
             else map_of (processes (monitor_pass popen_ok poll snapshot s)) k = map_of (processes s) k"
  using assms
proof (induction snapshot arbitrary: k s)
  case Nil
  then show ?case by simp
next
  case (Cons x snapshot)
  obtain key info where x: "x = (key, info)" by (cases x)
  have wk: "well_keyed snapshot" using Cons.prems by (simp add: well_keyed_def)
  have fresh: "map_of snapshot key = None"
    using Cons.prems by (simp add: well_keyed_def x map_of_eq_None_iff)
  show ?case unfolding x
  proof (cases "poll (proc_handle info) \<noteq> None \<and> proc_name info \<noteq> ''redis''")
    case False
    then have step: "monitor_pass popen_ok poll ((key, info) # snapshot) s =
                       monitor_pass popen_ok poll snapshot s"
      by (auto split: option.splits)
    show "case map_of ((key, info) # snapshot) k of
           None \<Rightarrow> map_of (processes (monitor_pass popen_ok poll ((key, info) # snapshot) s)) k = map_of (processes s) k
         | Some info' \<Rightarrow>
             if poll (proc_handle info') \<noteq> None \<and> proc_name info' \<noteq> ''redis''
             then \<exists>h. attempts s \<le> h \<and> h < attempts (monitor_pass popen_ok poll ((key, info) # snapshot) s) \<and>
                      map_of (processes (monitor_pass popen_ok poll ((key, info) # snapshot) s)) k =
                        (if popen_ok h then Some (info'\<lparr>proc_handle := h\<rparr>) else None)
             else map_of (processes (monitor_pass popen_ok poll ((key, info) # snapshot) s)) k = map_of (processes s) k"
    proof (cases "k = key")
      case True
      have "map_of (processes (monitor_pass popen_ok poll snapshot s)) key = map_of (processes s) key"
        using Cons.IH [OF wk, where k = key and s = "s"] fresh by simp
      then show ?thesis using False True unfolding step by auto
    next
      case neq: False
      then show ?thesis using Cons.IH [OF wk, where k = k and s = "s"] unfolding step by simp
    qed
  next
    case True
    let ?s1 = "snd (start_component popen_ok (s\<lparr>processes := dict_del key (processes s)\<rparr>)
                  (proc_name info) (proc_command info) (proc_worker_id info))"
    have step: "monitor_pass popen_ok poll ((key, info) # snapshot) s =
                  monitor_pass popen_ok poll snapshot ?s1"
      using True by auto
    have key: "key = process_key (proc_name info) (proc_worker_id info)"
      using Cons.prems True by (simp add: well_keyed_def x)
    have a1: "attempts ?s1 = Suc (attempts s)" by (simp add: start_component_attempts)
    have t1: "map_of (processes ?s1) k' =
                (if k' = key then (if popen_ok (attempts s) then Some (info\<lparr>proc_handle := attempts s\<rparr>) else None)
                 else map_of (processes s) k')" for k'
      using start_component_table [where popen_ok = popen_ok and s = s and key = key
          and name = "proc_name info" and command = "proc_command info"
          and wid = "proc_worker_id info" and k = k'] key
      by simp
    have mono: "attempts ?s1 \<le> attempts (monitor_pass popen_ok poll snapshot ?s1)"
      by (rule monitor_pass_attempts)
    show "case map_of ((key, info) # snapshot) k of
           None \<Rightarrow> map_of (processes (monitor_pass popen_ok poll ((key, info) # snapshot) s)) k = map_of (processes s) k
         | Some info' \<Rightarrow>
             if poll (proc_handle info') \<noteq> None \<and> proc_name info' \<noteq> ''redis''
             then \<exists>h. attempts s \<le> h \<and> h < attempts (monitor_pass popen_ok poll ((key, info) # snapshot) s) \<and>
                      map_of (processes (monitor_pass popen_ok poll ((key, info) # snapshot) s)) k =
                        (if popen_ok h then Some (info'\<lparr>proc_handle := h\<rparr>) else None)
             else map_of (processes (monitor_pass popen_ok poll ((key, info) # snapshot) s)) k = map_of (processes s) k"
    proof (cases "k = key")
      case k: True
      have "map_of (processes (monitor_pass popen_ok poll snapshot ?s1)) key = map_of (processes ?s1) key"
        using Cons.IH [OF wk, where k = key and s = "?s1"] fresh by simp
      then have "attempts s \<le> attempts s \<and> attempts s < attempts (monitor_pass popen_ok poll snapshot ?s1) \<and>
                 map_of (processes (monitor_pass popen_ok poll snapshot ?s1)) key =
                   (if popen_ok (attempts s) then Some (info\<lparr>proc_handle := attempts s\<rparr>) else None)"
        using t1 [of key] mono a1 by simp
      then have "\<exists>h. attempts s \<le> h \<and> h < attempts (monitor_pass popen_ok poll snapshot ?s1) \<and>
                 map_of (processes (monitor_pass popen_ok poll snapshot ?s1)) key =
                   (if popen_ok h then Some (info\<lparr>proc_handle := h\<rparr>) else None)"
        by blast
      then show ?thesis using True k unfolding step by simp
    next
      case neq: False
      show ?thesis
      proof (cases "map_of snapshot k")
        case None
        then have "map_of (processes (monitor_pass popen_ok poll snapshot ?s1)) k = map_of (processes s) k"
          using Cons.IH [OF wk, where k = k and s = "?s1"] neq t1 [of k] by simp
        then show ?thesis using None neq unfolding step by simp
      next
        case (Some info')
        show ?thesis
        proof (cases "poll (proc_handle info') \<noteq> None \<and> proc_name info' \<noteq> ''redis''")
          case r: True
          then obtain h where h: "attempts ?s1 \<le> h" "h < attempts (monitor_pass popen_ok poll snapshot ?s1)"
            "map_of (processes (monitor_pass popen_ok poll snapshot ?s1)) k =
               (if popen_ok h then Some (info'\<lparr>proc_handle := h\<rparr>) else None)"
            using Cons.IH [OF wk, where k = k and s = "?s1"] Some by auto
          then have "attempts s \<le> h" using a1 by simp
          then have "\<exists>h. attempts s \<le> h \<and> h < attempts (monitor_pass popen_ok poll snapshot ?s1) \<and>
                 map_of (processes (monitor_pass popen_ok poll snapshot ?s1)) k =
                   (if popen_ok h then Some (info'\<lparr>proc_handle := h\<rparr>) else None)"
            using h by blast
          then show ?thesis using r Some neq unfolding step by simp
        next
          case nr: False
          then have "map_of (processes (monitor_pass popen_ok poll snapshot ?s1)) k = map_of (processes s) k"
            using Cons.IH [OF wk, where k = k and s = "?s1"] Some neq t1 [of k] by simp
          then show ?thesis using nr Some neq unfolding step by auto
        qed
      qed
    qed
  qed
qed


text \<open>
  C7, as stated, fails: the monitor loop does not look at the exit code when it decides
  to restart. In \<open>ex_pipeline\<close> the supervisor is running and the manager, child number 1,
  has exited with code 0; after the next pass the table holds a new manager process,
  child number 3, under the same key.
\<close>

theorem clean_manager_exit_restarted:
  "running ex_pipeline \<and> ex_poll 1 = Some 0 \<and>
   map_of (processes ex_pipeline) ''extraction-manager'' =
     Some \<lparr>proc_name = ''extraction-manager'', proc_worker_id = None,
           proc_command = ''python3 extraction_manager.py --scan-interval 30 --lock-ttl 300'',
           proc_handle = 1\<rparr> \<and>
   map_of (processes (monitor (\<lambda>n. True) [ex_poll] ex_pipeline)) ''extraction-manager'' =
     Some \<lparr>proc_name = ''extraction-manager'', proc_worker_id = None,
           proc_command = ''python3 extraction_manager.py --scan-interval 30 --lock-ttl 300'',
           proc_handle = 3\<rparr>"
  by (simp add: ex_pipeline_def ex_poll_def start_component_def dict_del_def dict_set_def
      has_key_def process_key_def Let_def)

subsection \<open>Tables built by the supervisor\<close>

lemma dict_set_entries:
  "set (dict_set k v d) \<subseteq> insert (k, v) (set d)"
  by (auto simp: dict_set_def split: if_splits)

lemma well_keyed_dict_set:
  assumes "well_keyed d"
    and "proc_name info = ''redis'' \<or> k = process_key (proc_name info) (proc_worker_id info)"
  shows "well_keyed (dict_set k info d)"
proof -
  have "distinct (map fst (dict_set k info d))"
    using assms(1) by (simp add: well_keyed_def dict_set_distinct)
  moreover have "\<forall>(k', i) \<in> set (dict_set k info d).
                   proc_name i = ''redis'' \<or> k' = process_key (proc_name i) (proc_worker_id i)"
    using assms dict_set_entries [of k info d]
    by (auto simp: well_keyed_def list_all_iff)
  ultimately show ?thesis by (simp add: well_keyed_def list_all_iff)
qed

lemma well_keyed_dict_del: "well_keyed d \<Longrightarrow> well_keyed (dict_del k d)"
  by (auto simp: well_keyed_def dict_del_def list_all_iff distinct_map_filter)

lemma well_keyed_start_component:
  "well_keyed (processes s) \<Longrightarrow>
   well_keyed (processes (snd (start_component popen_ok s name command wid)))"
  by (simp add: start_component_def Let_def well_keyed_dict_set)

lemma well_keyed_start_redis:
  "well_keyed (processes s) \<Longrightarrow> well_keyed (processes (snd (start_redis popen_ok s)))"
  by (simp add: start_redis_def well_keyed_dict_set)

lemma handles_start_component:
  assumes "handles_allocated s"
  shows "handles_allocated (snd (start_component popen_ok s name command wid))"
proof -
  let ?info = "\<lparr>proc_name = name, proc_worker_id = wid, proc_command = command,
                proc_handle = attempts s\<rparr>"
  have "\<forall>(k, i) \<in> set (dict_set (process_key name wid) ?info (processes s)). proc_handle i < Suc (attempts s)"
    using assms dict_set_entries [of "process_key name wid" ?info "processes s"]
    by (fastforce simp: handles_allocated_def list_all_iff)
  moreover have "\<forall>(k, i) \<in> set (processes s). proc_handle i < Suc (attempts s)"
    using assms by (fastforce simp: handles_allocated_def list_all_iff)
  ultimately show ?thesis
    by (simp add: start_component_def Let_def handles_allocated_def list_all_iff)
qed

lemma handles_dict_del:
  "handles_allocated s \<Longrightarrow> handles_allocated (s\<lparr>processes := dict_del k (processes s)\<rparr>)"
  by (auto simp: handles_allocated_def dict_del_def list_all_iff)

lemma monitor_pass_well_formed:
  "well_keyed (processes s) \<Longrightarrow> handles_allocated s \<Longrightarrow>
   well_keyed (processes (monitor_pass popen_ok poll snapshot s)) \<and>
   handles_allocated (monitor_pass popen_ok poll snapshot s)"
proof (induction snapshot arbitrary: s)
  case Nil
  then show ?case by simp
next
  case (Cons x snapshot)
  obtain key info where x: "x = (key, info)" by (cases x)
  let ?s0 = "s\<lparr>processes := dict_del key (processes s)\<rparr>"
  let ?s1 = "snd (start_component popen_ok ?s0 (proc_name info) (proc_command info) (proc_worker_id info))"
  have "well_keyed (processes ?s0)" using Cons.prems(1) by (simp add: well_keyed_dict_del)
  then have w1: "well_keyed (processes ?s1)" by (rule well_keyed_start_component)
  have "handles_allocated ?s0" using Cons.prems(2) by (rule handles_dict_del)
  then have h1: "handles_allocated ?s1" by (rule handles_start_component)
  show ?case
    using Cons.IH [OF Cons.prems] Cons.IH [OF w1 h1]
    by (simp add: x split: option.splits)
qed

lemma initial_well_formed: "well_keyed (processes initial_pipeline) \<and> handles_allocated initial_pipeline"
  by (simp add: initial_pipeline_def well_keyed_def handles_allocated_def)

lemma handles_start_redis:
  assumes "handles_allocated s"
  shows "handles_allocated (snd (start_redis popen_ok s))"
proof -
  let ?info = "\<lparr>proc_name = ''redis'', proc_worker_id = None, proc_command = ''redis-server'',
                proc_handle = attempts s\<rparr>"
  have "\<forall>(k, i) \<in> set (dict_set ''redis'' ?info (processes s)). proc_handle i < Suc (attempts s)"
    using assms dict_set_entries [of "''redis''" ?info "processes s"]
    by (fastforce simp: handles_allocated_def list_all_iff)
  moreover have "\<forall>(k, i) \<in> set (processes s). proc_handle i < Suc (attempts s)"
    using assms by (fastforce simp: handles_allocated_def list_all_iff)
  ultimately show ?thesis
    by (simp add: start_redis_def handles_allocated_def list_all_iff)
qed

lemma allocated_handle_old:
  "handles_allocated s \<Longrightarrow> attempts s \<le> h \<Longrightarrow>
   h \<notin> set (map (\<lambda>(k, info). proc_handle info) (processes s))"
  by (fastforce simp: handles_allocated_def list_all_iff)

text \<open>
  C7, amended. Take a process table that is well keyed and whose children all have
  allocated handles, and any key. In one pass of the monitor loop a child that has exited
  and is not redis is removed from the table and started again: when the spawn succeeds
  the table holds, under the same key, a child with the same name (stage), worker id and
  command and a process that was not in the table before; when the spawn fails the key is
  left without a child. This happens whatever the exit code was. Every other entry, redis
  included, is what it was before the pass, and no key is added. The loop makes a pass only
  while the running flag is set: after \<^verbatim>\<open>shutdown\<close> has cleared it the loop changes
  nothing, so no child, the manager included, is restarted.
\<close>

theorem monitor_restarts_exited_children:
  assumes "well_keyed (processes s)" and "handles_allocated s"
  shows "(case map_of (processes s) k of
            None \<Rightarrow> map_of (processes (monitor_pass popen_ok poll (processes s) s)) k = None
          | Some info \<Rightarrow>
              if poll (proc_handle info) \<noteq> None \<and> proc_name info \<noteq> ''redis''
              then \<exists>h. h \<notin> set (map (\<lambda>(k, info). proc_handle info) (processes s)) \<and>
                       map_of (processes (monitor_pass popen_ok poll (processes s) s)) k =
                         (if popen_ok h then Some (info\<lparr>proc_handle := h\<rparr>) else None)
              else map_of (processes (monitor_pass popen_ok poll (processes s) s)) k = Some info) \<and>
         (running s \<longrightarrow>
            monitor popen_ok (poll # polls) s =
              monitor popen_ok polls (monitor_pass popen_ok poll (processes s) s)) \<and>
         monitor popen_ok polls (shutdown s) = shutdown s"
proof -
  have "monitor popen_ok polls (shutdown s) = shutdown s"
    by (cases polls) (simp_all add: shutdown_def)
  moreover have "running s \<longrightarrow>
            monitor popen_ok (poll # polls) s =
              monitor popen_ok polls (monitor_pass popen_ok poll (processes s) s)"
    by simp
  moreover have "case map_of (processes s) k of
            None \<Rightarrow> map_of (processes (monitor_pass popen_ok poll (processes s) s)) k = None
          | Some info \<Rightarrow>
              if poll (proc_handle info) \<noteq> None \<and> proc_name info \<noteq> ''redis''
              then \<exists>h. h \<notin> set (map (\<lambda>(k, info). proc_handle info) (processes s)) \<and>
                       map_of (processes (monitor_pass popen_ok poll (processes s) s)) k =
                         (if popen_ok h then Some (info\<lparr>proc_handle := h\<rparr>) else None)
              else map_of (processes (monitor_pass popen_ok poll (processes s) s)) k = Some info"
  proof (cases "map_of (processes s) k")
    case None
    then show ?thesis
      using monitor_pass_table [OF assms(1), where k = k and s = s and popen_ok = popen_ok and poll = poll]
      by simp
  next
    case (Some info)
    show ?thesis
    proof (cases "poll (proc_handle info) \<noteq> None \<and> proc_name info \<noteq> ''redis''")
      case True
      then obtain h where h: "attempts s \<le> h"
        "map_of (processes (monitor_pass popen_ok poll (processes s) s)) k =
           (if popen_ok h then Some (info\<lparr>proc_handle := h\<rparr>) else None)"
        using monitor_pass_table [OF assms(1), where k = k and s = s and popen_ok = popen_ok and poll = poll]
          Some by auto
      have "h \<notin> set (map (\<lambda>(k, info). proc_handle info) (processes s))"
        using assms(2) h(1) by (rule allocated_handle_old)
      then have "\<exists>h. h \<notin> set (map (\<lambda>(k, info). proc_handle info) (processes s)) \<and>
                       map_of (processes (monitor_pass popen_ok poll (processes s) s)) k =
                         (if popen_ok h then Some (info\<lparr>proc_handle := h\<rparr>) else None)"
        using h(2) by blast
      then show ?thesis using Some True by simp
    next
      case False
      then show ?thesis
        using monitor_pass_table [OF assms(1), where k = k and s = s and popen_ok = popen_ok and poll = poll]
          Some by auto
    qed
  qed
  ultimately show ?thesis by blast
qed

theorem monitor_restarts_exited_children_witness:
  "well_keyed (processes ex_pipeline) \<and> handles_allocated ex_pipeline \<and> running ex_pipeline \<and>
   map_of (processes (monitor_pass (\<lambda>n. True) ex_poll (processes ex_pipeline) ex_pipeline))
     ''extraction-worker:extraction-worker-0'' =
     Some \<lparr>proc_name = ''extraction-worker'', proc_worker_id = Some ''extraction-worker-0'',
           proc_command = ''python3 extraction.py --worker-id extraction-worker-0'',
           proc_handle = 4\<rparr> \<and>
   map_of (processes (monitor_pass (\<lambda>n. True) ex_poll (processes ex_pipeline) ex_pipeline))
     ''redis'' =
     Some \<lparr>proc_name = ''redis'', proc_worker_id = None, proc_command = ''redis-server'',
           proc_handle = 0\<rparr> \<and>
   map_of (processes (monitor_pass (\<lambda>n. False) ex_poll (processes ex_pipeline) ex_pipeline))
     ''extraction-worker:extraction-worker-0'' = None \<and>
   monitor (\<lambda>n. True) [ex_poll] ex_pipeline =
     monitor_pass (\<lambda>n. True) ex_poll (processes ex_pipeline) ex_pipeline \<and>
   monitor (\<lambda>n. True) [ex_poll] (shutdown ex_pipeline) = shutdown ex_pipeline"
  using monitor_restarts_exited_children [where s = ex_pipeline
      and k = "''extraction-worker:extraction-worker-0''" and popen_ok = "\<lambda>n. True"
      and poll = ex_poll and polls = "[]"]
  by (simp add: ex_pipeline_def ex_poll_def start_component_def dict_del_def dict_set_def
      has_key_def process_key_def Let_def well_keyed_def handles_allocated_def shutdown_def)

end
